theory Spec2Isabelle
  imports Complex_Main "HOL-Library.AList" "HOL-Library.Char_ord" "HOL-Library.List_Lexorder"
begin

section \<open>JavaScript values\<close>

text \<open>
  The values that reach the resources context are parsed JSON responses, plus
  \<open>undefined\<close>, which JavaScript yields when a property that is not there is read.
  An object is the list of its own enumerable properties in the order in which
  \<open>Object.keys\<close> lists them; a JavaScript object never has the same key twice.
  A JSON number is modelled by its numeric value, so that \<open>===\<close> on numbers is
  equality (JSON has no NaN). Strings are lists of 8-bit characters, which covers the
  ASCII property names and identifiers of the source.

  \<open>JPrototype\<close> is the object \<open>Object.prototype\<close>, from which every parsed object
  inherits: reading \<open>__proto__\<close> on an object that has no own property of that name
  yields it. It has no enumerable property, and its members other than \<open>__proto__\<close>
  are functions.
\<close>

text \<open>
  \<open>TypeError\<close> is the exception of JavaScript. \<open>NotModelled\<close> is no behaviour of the
  source: it is the result of a read whose value is a function or an object of a
  built-in prototype that \<open>jsval\<close> does not represent, so that no statement is made
  about what the source does after such a read.
\<close>

datatype error = TypeError | NotModelled

datatype jsval =
    JUndefined
  | JNull
  | JBool bool
  | JNum rat
  | JStr string
  | JArr "jsval list"
  | JObj "(string \<times> jsval) list"
  | JPrototype

text \<open>The \<open>typeof\<close> operator; \<open>typeof null\<close> is \<open>"object"\<close>, as for arrays.\<close>

fun typeof :: "jsval \<Rightarrow> string" where
  "typeof JUndefined = ''undefined''"
| "typeof JNull = ''object''"
| "typeof (JBool b) = ''boolean''"
| "typeof (JNum n) = ''number''"
| "typeof (JStr s) = ''string''"
| "typeof (JArr xs) = ''object''"
| "typeof (JObj kvs) = ''object''"
| "typeof JPrototype = ''object''"

text \<open>The decimal numeral of an array index, as \<open>Object.keys\<close> spells it.\<close>

function decimal :: "nat \<Rightarrow> string" where
  "decimal n = (if n < 10 then [char_of (48 + n)]
                else decimal (n div 10) @ [char_of (48 + n mod 10)])"
  by pat_completeness auto
termination
  by (relation "measure id") auto

declare decimal.simps [simp del]

definition index_keys :: "nat \<Rightarrow> string list" where
  "index_keys n = map decimal [0..<n]"

text \<open>
  \<open>Object.keys\<close>: it throws a TypeError on \<open>undefined\<close> and on \<open>null\<close>, gives no key
  for a number, a boolean or \<open>Object.prototype\<close>, and the indices for a string or an
  array.
\<close>

fun Object_keys :: "jsval \<Rightarrow> error + string list" where
  "Object_keys JUndefined = Inl TypeError"
| "Object_keys JNull = Inl TypeError"
| "Object_keys (JBool b) = Inr []"
| "Object_keys (JNum n) = Inr []"
| "Object_keys (JStr s) = Inr (index_keys (length s))"
| "Object_keys (JArr xs) = Inr (index_keys (length xs))"
| "Object_keys (JObj kvs) = Inr (map fst kvs)"
| "Object_keys JPrototype = Inr []"

text \<open>
  The names of the function members of \<open>Object.prototype\<close>. Together with the
  accessor \<open>__proto__\<close> they are all its properties with a string name.
\<close>

definition object_members :: "string list" where
  "object_members =
     [''constructor'', ''__defineGetter__'', ''__defineSetter__'', ''hasOwnProperty'',
      ''__lookupGetter__'', ''__lookupSetter__'', ''isPrototypeOf'',
      ''propertyIsEnumerable'', ''toString'', ''valueOf'', ''toLocaleString'']"

text \<open>
  A read that finds no own property goes to the prototype chain. On a parsed object
  the chain is \<open>Object.prototype\<close> alone: \<open>__proto__\<close> reads as that prototype, the
  name of a function member reads as a function, and any other name as \<open>undefined\<close>.
  On \<open>Object.prototype\<close> itself \<open>__proto__\<close> reads as \<open>null\<close>. The prototypes of
  arrays, strings, numbers and booleans have many more members; none of them has a
  name made of digits only, so that such a name reads as \<open>undefined\<close>, and the other
  names are left out of the model.
\<close>

definition inherited_of_object :: "string \<Rightarrow> error + jsval" where
  "inherited_of_object k =
     (if k = ''__proto__'' then Inr JPrototype
      else if k \<in> set object_members then Inl NotModelled
      else Inr JUndefined)"

definition inherited_of_prototype :: "string \<Rightarrow> error + jsval" where
  "inherited_of_prototype k =
     (if k = ''__proto__'' then Inr JNull
      else if k \<in> set object_members then Inl NotModelled
      else Inr JUndefined)"

definition inherited_of_other :: "string \<Rightarrow> error + jsval" where
  "inherited_of_other k =
     (if k \<noteq> [] \<and> list_all (\<lambda>c. c \<in> set ''0123456789'') k then Inr JUndefined
      else Inl NotModelled)"

text \<open>
  The property read \<open>obj[k]\<close>: it throws a TypeError on \<open>undefined\<close> and on \<open>null\<close>;
  otherwise it gives the own property of that name, an element or the \<open>length\<close> of
  an array or string, and what the prototype chain has when there is no own property.
\<close>

fun getProp :: "jsval \<Rightarrow> string \<Rightarrow> error + jsval" where
  "getProp JUndefined k = Inl TypeError"
| "getProp JNull k = Inl TypeError"
| "getProp (JBool b) k = inherited_of_other k"
| "getProp (JNum n) k = inherited_of_other k"
| "getProp (JStr s) k =
     (if k = ''length'' then Inr (JNum (of_nat (length s)))
      else case map_of (zip (index_keys (length s)) s) k of
             Some c \<Rightarrow> Inr (JStr [c]) | None \<Rightarrow> inherited_of_other k)"
| "getProp (JArr xs) k =
     (if k = ''length'' then Inr (JNum (of_nat (length xs)))
      else case map_of (zip (index_keys (length xs)) xs) k of
             Some v \<Rightarrow> Inr v | None \<Rightarrow> inherited_of_other k)"
| "getProp (JObj kvs) k =
     (case map_of kvs k of Some v \<Rightarrow> Inr v | None \<Rightarrow> inherited_of_object k)"
| "getProp JPrototype k = inherited_of_prototype k"

text \<open>
  \<open>Object.assign([], a, b)\<close> on arrays copies the indexed elements of each source in
  turn onto the target: the elements of a later source overwrite those at the same
  index.
\<close>

definition assign_indices :: "'a list \<Rightarrow> 'a list \<Rightarrow> 'a list" where
  "assign_indices target source = source @ drop (length source) target"

section \<open>The configuration comparator\<close>

text \<open>\<open>flattenPropertyPath\<close>: the loop from index 1, then the function.\<close>

fun flatten_from :: "string \<Rightarrow> string list \<Rightarrow> string" where
  "flatten_from flatPath [] = flatPath"
| "flatten_from flatPath (p # ps) = flatten_from (flatPath @ (''.'' @ p)) ps"

definition flattenPropertyPath :: "string list \<Rightarrow> jsval" where
  "flattenPropertyPath propPath =
     (case propPath of [] \<Rightarrow> JNull | p # ps \<Rightarrow> JStr (flatten_from p ps))"

definition excludeProps :: "string list" where
  "excludeProps = [''class'']"

text \<open>The sorted list of property names that the comparator walks.\<close>

definition configPropNamesSorted :: "string list \<Rightarrow> string list \<Rightarrow> string list" where
  "configPropNamesSorted activeConfigPropNames storedConfigPropNames =
     sort (assign_indices (assign_indices [] activeConfigPropNames) storedConfigPropNames)"

text \<open>
  The measure of the recursion of the comparator. A property whose \<open>typeof\<close> is
  \<open>"object"\<close> is an element of the array or a value of the object that it is read
  from, or it is \<open>Object.prototype\<close>, or the \<open>null\<close> that ends the prototype chain:
  in each case its rank is smaller, and the recursion ends.
\<close>

fun rank :: "jsval \<Rightarrow> nat" where
  "rank JNull = 0"
| "rank JPrototype = 1"
| "rank v = Suc (Suc (size v))"

lemma getProp_object_smaller:
  assumes "getProp a k = Inr v" and "typeof v = ''object''"
  shows "rank v < rank a"
proof -
  have proto: "rank v \<le> 1" if "inherited_of_object k = Inr v \<or> inherited_of_other k = Inr v"
    using that assms(2)
    by (auto simp: inherited_of_object_def inherited_of_other_def split: if_splits)
  have null: "rank v = 0" if "inherited_of_prototype k = Inr v"
    using that assms(2)
    by (auto simp: inherited_of_prototype_def split: if_splits)
  have le: "rank w \<le> Suc (Suc (size w))" for w by (cases w) simp_all
  show ?thesis
  proof (cases a)
    case (JObj kvs)
    show ?thesis
    proof (cases "map_of kvs k")
      case None
      with JObj assms(1) proto show ?thesis by simp
    next
      case (Some w)
      then have "(k, w) \<in> set kvs" by (rule map_of_SomeD)
      then have "size w < size_list (size_prod (\<lambda>_. 0) size) kvs"
        by (induction kvs) auto
      with JObj Some assms(1) le[of v] show ?thesis by simp
    qed
  next
    case (JArr xs)
    show ?thesis
    proof (cases "k = ''length''")
      case True
      with JArr assms show ?thesis by auto
    next
      case False
      show ?thesis
      proof (cases "map_of (zip (index_keys (length xs)) xs) k")
        case None
        with JArr False assms(1) proto show ?thesis by simp
      next
        case (Some w)
        then have "w \<in> set xs" by (metis map_of_SomeD set_zip_rightD)
        then have "size w < size_list size xs"
          by (induction xs) auto
        with JArr Some False assms(1) le[of v] show ?thesis by simp
      qed
    qed
  next
    case (JStr s)
    with assms proto show ?thesis by (auto split: if_splits option.splits)
  next
    case (JBool b)
    with assms proto show ?thesis by simp
  next
    case (JNum n)
    with assms proto show ?thesis by simp
  next
    case JPrototype
    with assms(1) null show ?thesis by simp
  qed (use assms in simp_all)
qed

text \<open>
  \<open>compareConfigurations\<close>. The list \<open>mpn\<close>, which the source extends in place, is
  passed in and returned; \<open>forEachProp\<close> is the \<open>forEach\<close> over the sorted names,
  with the local \<open>matched\<close> as an accumulator. The callback reads
  \<open>activeConfig[propName]\<close> and recurses when its \<open>typeof\<close> is \<open>"object"\<close>, with
  \<open>storedConfig[propName]\<close> as the stored side. In the scalar branch the right
  operand of \<open>===\<close> is never an object or an array, so that strict equality is
  equality of values.
\<close>

function compareConfigurations ::
    "jsval \<Rightarrow> jsval \<Rightarrow> string list \<Rightarrow> jsval list \<Rightarrow> error + (bool \<times> jsval list)"
  and forEachProp ::
    "jsval \<Rightarrow> jsval \<Rightarrow> string list \<Rightarrow> string list \<Rightarrow> bool \<Rightarrow> jsval list
       \<Rightarrow> error + (bool \<times> jsval list)"
where
  "compareConfigurations storedConfig activeConfig propertyPath mpn =
     (case Object_keys activeConfig of
        Inl e \<Rightarrow> Inl e
      | Inr activeConfigPropNames \<Rightarrow>
          (case Object_keys storedConfig of
             Inl e \<Rightarrow> Inl e
           | Inr storedConfigPropNames \<Rightarrow>
               forEachProp storedConfig activeConfig propertyPath
                 (configPropNamesSorted activeConfigPropNames storedConfigPropNames)
                 True mpn))"
| "forEachProp storedConfig activeConfig propertyPath [] matched mpn = Inr (matched, mpn)"
| "forEachProp storedConfig activeConfig propertyPath (propName # rest) matched mpn =
     (if propName \<in> set excludeProps then
        forEachProp storedConfig activeConfig propertyPath rest matched mpn
      else
        (case getProp activeConfig propName of
           Inl e \<Rightarrow> Inl e
         | Inr activeValue \<Rightarrow>
             (case getProp storedConfig propName of
                Inl e \<Rightarrow> Inl e
              | Inr storedValue \<Rightarrow>
                  (if typeof activeValue = ''object'' then
                     (case compareConfigurations storedValue activeValue
                             (propertyPath @ [propName]) mpn of
                        Inl e \<Rightarrow> Inl e
                      | Inr (match, mpn') \<Rightarrow>
                          forEachProp storedConfig activeConfig propertyPath rest
                            (if \<not> match then False else matched) mpn')
                   else if storedValue \<noteq> activeValue then
                     forEachProp storedConfig activeConfig propertyPath rest False
                       (mpn @ [flattenPropertyPath (propertyPath @ [propName])])
                   else
                     forEachProp storedConfig activeConfig propertyPath rest matched mpn))))"
  by pat_completeness auto
termination
  by (relation "measures
        [\<lambda>x. case x of Inl (s, a, p, m) \<Rightarrow> rank a | Inr (s, a, p, ks, b, m) \<Rightarrow> rank a,
         \<lambda>x. case x of Inl (s, a, p, m) \<Rightarrow> 1 | Inr (s, a, p, ks, b, m) \<Rightarrow> 0,
         \<lambda>x. case x of Inl (s, a, p, m) \<Rightarrow> 0 | Inr (s, a, p, ks, b, m) \<Rightarrow> length ks]")
     (auto simp: getProp_object_smaller)

section \<open>The state of the resources context\<close>

text \<open>
  A resource or a relationship is a JavaScript object, kept as the list of its fields.
  \<open>update_objects\<close> is an object with the two maps \<open>resources\<close> and \<open>relationships\<close>
  from identifier to entity; a generation has the same two maps and the
  \<open>requestSummary\<close> of the request that created it. The maps are lists of entries in
  key order.
\<close>

type_synonym entity = "(string \<times> jsval) list"

record objects =
  resources :: "(string \<times> entity) list"
  relationships :: "(string \<times> entity) list"

record gen = objects +
  requestSummary :: jsval

record focus =
  category :: string
  guid :: string

text \<open>
  The state variables of \<open>ResourcesContextProvider\<close>. The setters replace a variable
  as a whole, so an operation of the context is a function from the state in which it
  is called to the state after its setters have taken effect. \<open>guidToGenId\<close> holds
  the 1-based number of the generation of each known identifier.
\<close>

record context_state =
  focus :: focus
  serverConfig :: entity
  operationState :: entity
  gens :: "gen list"
  guidToGenId :: "(string \<times> nat) list"

text \<open>
  Every focus object of the source is written as \<open>{category: ..., guid: ...}\<close> (the
  initial state, \<open>processRetrievedPlatform\<close>, \<open>processRetrievedServer\<close>,
  \<open>processRetrievedServiceDetails\<close>, \<open>clearFocusResource\<close>, \<open>removeGen\<close>).
  Reading a property of it gives one of these two fields, and \<open>undefined\<close> for any
  other name.
\<close>

definition focus_property :: "focus \<Rightarrow> string \<Rightarrow> jsval" where
  "focus_property f name =
     (if name = ''category'' then JStr (category f)
      else if name = ''guid'' then JStr (guid f)
      else JUndefined)"

definition getLatestGenId :: "context_state \<Rightarrow> nat" where
  "getLatestGenId st = length (gens st)"

definition createEmptyGen :: "jsval \<Rightarrow> gen" where
  "createEmptyGen rs = \<lparr>resources = [], relationships = [], requestSummary = rs\<rparr>"

text \<open>
  \<open>Object.assign(target, source)\<close> on two objects writes each own property of the
  source onto the target, in the order of the source.
\<close>

definition Object_assign :: "entity \<Rightarrow> entity \<Rightarrow> entity" where
  "Object_assign target source = fold (\<lambda>(k, v). AList.update k v) source target"

section \<open>Merging retrieved objects into the generations\<close>

text \<open>
  The local variables of \<open>updateGens\<close> that its two loops change. \<open>ad_genId\<close> and
  the state's \<open>guidToGenId\<close>, which the loops only read, are parameters of the loop
  bodies.
\<close>

record update_locals =
  gens_clone :: "gen list"
  map_clone :: "(string \<times> nat) list"
  addingGen :: bool
  ad_gen :: gen

text \<open>
  \<open>forEach\<close> with a callback that may throw: the first exception ends the loop.
\<close>

fun forEach :: "('a \<Rightarrow> 's \<Rightarrow> error + 's) \<Rightarrow> 'a list \<Rightarrow> 's \<Rightarrow> error + 's" where
  "forEach f [] s = Inr s"
| "forEach f (x # xs) s = (case f x s of Inl e \<Rightarrow> Inl e | Inr s' \<Rightarrow> forEach f xs s')"

text \<open>
  The body of the loop over \<open>Object.keys(update_objects.resources)\<close>, at the entry
  \<open>(guid, update_objects.resources[guid])\<close>. For a known identifier
  \<open>gens_clone[ex_genId - 1]\<close> is \<open>undefined\<close> when the index is out of range, and
  reading \<open>.resources\<close> of it throws; \<open>Object.assign\<close> throws when the generation has
  no resource under the identifier. The merged resource replaces the existing one in
  its generation. A new identifier is staged in \<open>ad_gen\<close> with its field \<open>gen\<close> set,
  and entered in \<open>map_clone\<close>.
\<close>

definition update_resource ::
    "(string \<times> nat) list \<Rightarrow> nat \<Rightarrow> string \<times> entity \<Rightarrow> update_locals \<Rightarrow> error + update_locals"
where
  "update_resource known ad_genId entry l =
     (case entry of (g, update) \<Rightarrow>
        (case map_of known g of
           Some ex_genId \<Rightarrow>
             (if ex_genId = 0 \<or> length (gens_clone l) < ex_genId then Inl TypeError
              else
                (let ex_gen = gens_clone l ! (ex_genId - 1) in
                   (case map_of (resources ex_gen) g of
                      None \<Rightarrow> Inl TypeError
                    | Some existingResource \<Rightarrow>
                        (let mergedResource = Object_assign existingResource update in
                           Inr (l\<lparr>gens_clone := (gens_clone l)
                                  [ex_genId - 1 := ex_gen\<lparr>resources :=
                                     AList.update g mergedResource (resources ex_gen)\<rparr>]\<rparr>)))))
         | None \<Rightarrow>
             Inr (l\<lparr>addingGen := True,
                    ad_gen := (ad_gen l)\<lparr>resources :=
                      AList.update g
                        (AList.update ''gen'' (JNum (of_nat ad_genId)) update)
                        (resources (ad_gen l))\<rparr>,
                    map_clone := AList.update g ad_genId (map_clone l)\<rparr>)))"

text \<open>The body of the loop over the relationships, written the same way in the source.\<close>

definition update_relationship ::
    "(string \<times> nat) list \<Rightarrow> nat \<Rightarrow> string \<times> entity \<Rightarrow> update_locals \<Rightarrow> error + update_locals"
where
  "update_relationship known ad_genId entry l =
     (case entry of (g, update) \<Rightarrow>
        (case map_of known g of
           Some ex_genId \<Rightarrow>
             (if ex_genId = 0 \<or> length (gens_clone l) < ex_genId then Inl TypeError
              else
                (let ex_gen = gens_clone l ! (ex_genId - 1) in
                   (case map_of (relationships ex_gen) g of
                      None \<Rightarrow> Inl TypeError
                    | Some existingRelationship \<Rightarrow>
                        (let mergedRelationship = Object_assign existingRelationship update in
                           Inr (l\<lparr>gens_clone := (gens_clone l)
                                  [ex_genId - 1 := ex_gen\<lparr>relationships :=
                                     AList.update g mergedRelationship
                                       (relationships ex_gen)\<rparr>]\<rparr>)))))
         | None \<Rightarrow>
             Inr (l\<lparr>addingGen := True,
                    ad_gen := (ad_gen l)\<lparr>relationships :=
                      AList.update g
                        (AList.update ''gen'' (JNum (of_nat ad_genId)) update)
                        (relationships (ad_gen l))\<rparr>,
                    map_clone := AList.update g ad_genId (map_clone l)\<rparr>)))"

text \<open>
  The array store \<open>a[i] = v\<close> at an index up to the length of the array: within the
  array it replaces the element, at the length it appends.
\<close>

definition array_store :: "'a list \<Rightarrow> nat \<Rightarrow> 'a \<Rightarrow> 'a list" where
  "array_store a i v = (if i < length a then a[i := v] else a @ [v])"

text \<open>
  \<open>updateGens\<close>. When an exception leaves a loop, neither setter is called, and the
  result is the error alone (the entities that \<open>Object.assign\<close> has merged in place
  by then are not part of it). The new generation is stored at index
  \<open>ad_genId - 1\<close>, which is the length of \<open>gens\<close>.
\<close>

definition updateGens :: "objects \<Rightarrow> jsval \<Rightarrow> context_state \<Rightarrow> error + context_state" where
  "updateGens update_objects rs st =
     (let ad_genId = getLatestGenId st + 1;
          l0 = \<lparr>gens_clone = gens st, map_clone = guidToGenId st, addingGen = False,
                ad_gen = createEmptyGen rs\<rparr>
      in case forEach (update_resource (guidToGenId st) ad_genId)
                (resources update_objects) l0 of
           Inl e \<Rightarrow> Inl e
         | Inr l1 \<Rightarrow>
             (case forEach (update_relationship (guidToGenId st) ad_genId)
                     (relationships update_objects) l1 of
                Inl e \<Rightarrow> Inl e
              | Inr l2 \<Rightarrow>
                  Inr (st\<lparr>gens :=
                           (if addingGen l2
                            then array_store (gens_clone l2) (ad_genId - 1) (ad_gen l2)
                            else gens_clone l2),
                         guidToGenId :=
                           (if addingGen l2 then map_clone l2 else guidToGenId st)\<rparr>)))"

section \<open>Focus and removal of a generation\<close>

text \<open>\<open>clearFocusResource\<close>: the focus and the server configuration are reset.\<close>

definition clearFocusResource :: "context_state \<Rightarrow> context_state" where
  "clearFocusResource st =
     st\<lparr>focus := \<lparr>category = '''', guid = ''''\<rparr>,
        serverConfig := [(''stored'', JNull), (''active'', JNull), (''loading'', JStr ''init'')]\<rparr>"

text \<open>
  The loaders that \<open>changeFocusResource\<close> calls send a request to the view service
  (or raise an alert) and return; the state is written later, by the callback of the
  request. A call of a loader is recorded with its argument.
\<close>

datatype loader_call =
    LoadPlatform jsval
  | LoadServerFromGen entity
  | LoadServiceFromGen entity

text \<open>
  \<open>changeFocusResource\<close>. The test for the current focus reads
  \<open>focus.instanceGUID\<close>. Reading \<open>.resources\<close> of a generation that is not there and
  \<open>.category\<close> of a resource that is not there throw. The fields \<open>category\<close>,
  \<open>platformName\<close>, \<open>serverInstanceName\<close> and \<open>serviceInstanceName\<close> of the resource
  are read with \<open>getProp\<close>; none of these names is a member of \<open>Object.prototype\<close>,
  so each read gives the own field, or \<open>undefined\<close>.
\<close>

definition changeFocusResource ::
    "string \<Rightarrow> context_state \<Rightarrow> error + (context_state \<times> loader_call list)"
where
  "changeFocusResource g st =
     (if JStr g = focus_property (focus st) ''instanceGUID'' then
        Inr (clearFocusResource st, [])
      else
        (case map_of (guidToGenId st) g of
           None \<Rightarrow> Inr (st, [])
         | Some genId \<Rightarrow>
             (if genId = 0 \<or> length (gens st) < genId then Inl TypeError
              else
                (case map_of (resources (gens st ! (genId - 1))) g of
                   None \<Rightarrow> Inl TypeError
                 | Some resource \<Rightarrow>
                     (case getProp (JObj resource) ''category'' of
                        Inl e \<Rightarrow> Inl e
                      | Inr c \<Rightarrow>
                          if c = JStr ''platform'' then
                            (case getProp (JObj resource) ''platformName'' of
                               Inl e \<Rightarrow> Inl e
                             | Inr name \<Rightarrow>
                                 Inr (st\<lparr>operationState :=
                                           [(''state'', JStr ''loading''), (''name'', name)]\<rparr>,
                                      [LoadPlatform name]))
                          else if c = JStr ''server-instance'' then
                            (case getProp (JObj resource) ''serverInstanceName'' of
                               Inl e \<Rightarrow> Inl e
                             | Inr name \<Rightarrow>
                                 Inr (st\<lparr>operationState :=
                                           [(''state'', JStr ''loading''), (''name'', name)]\<rparr>,
                                      [LoadServerFromGen resource]))
                          else if c = JStr ''service-instance'' then
                            (case getProp (JObj resource) ''serviceInstanceName'' of
                               Inl e \<Rightarrow> Inl e
                             | Inr name \<Rightarrow>
                                 Inr (st\<lparr>operationState :=
                                           [(''state'', JStr ''loading''), (''name'', name)]\<rparr>,
                                      [LoadServiceFromGen resource]))
                          else Inr (st, []))))))"

text \<open>
  \<open>removeGen\<close>. \<open>pop\<close> on the empty clone gives \<open>undefined\<close>, and reading
  \<open>.resources\<close> of it throws before any setter is called. Otherwise the last
  generation is taken off, the focus is cleared when the removed generation has a
  resource under \<open>focus.guid\<close>, and the keys of its resources and relationships are
  deleted from the index.
\<close>

definition removeGen :: "context_state \<Rightarrow> error + context_state" where
  "removeGen st =
     (if gens st = [] then Inl TypeError
      else
        (let newList = butlast (gens st);
             removedGen = last (gens st);
             st1 = (if map_of (resources removedGen) (guid (focus st)) \<noteq> None
                    then st\<lparr>focus := \<lparr>category = '''', guid = ''''\<rparr>,
                            serverConfig := [(''stored'', JNull), (''active'', JNull),
                                             (''loading'', JStr ''init'')],
                            operationState := [(''state'', JStr ''inactive''),
                                               (''name'', JStr '''')]\<rparr>
                    else st);
             newGUIDMap =
               fold AList.delete (map fst (relationships removedGen))
                 (fold AList.delete (map fst (resources removedGen)) (guidToGenId st))
         in Inr (st1\<lparr>gens := newList, guidToGenId := newGUIDMap\<rparr>)))"

section \<open>Predicates of the properties\<close>





text \<open>
  An identifier of an update is located when it is new, or when the index gives it a
  generation that is there and that holds it in the map \<open>sel\<close> (the resources or
  the relationships) under which the update supplies it.
\<close>

definition located :: "gen list \<Rightarrow> (string \<times> nat) list \<Rightarrow> (gen \<Rightarrow> (string \<times> entity) list) \<Rightarrow> string \<Rightarrow> bool" where
  "located gs known sel g =
     (case map_of known g of
        None \<Rightarrow> True
      | Some n \<Rightarrow> 0 < n \<and> n \<le> length gs \<and> g \<in> fst ` set (sel (gs ! (n - 1))))"

text \<open>
  The identifiers of a map of an update that the index does not know, in the order of
  the map.
\<close>

definition new_ids :: "(string \<times> nat) list \<Rightarrow> (string \<times> entity) list \<Rightarrow> string list" where
  "new_ids known entries = filter (\<lambda>g. map_of known g = None) (map fst entries)"

text \<open>
  Every identifier of the update is located. \<open>updateGens\<close> completes exactly in
  this case (lemma \<open>updateGens_defined_iff\<close>); otherwise it throws before it sets
  the state.
\<close>

definition known_located :: "context_state \<Rightarrow> objects \<Rightarrow> bool" where
  "known_located st u \<longleftrightarrow>
     (\<forall>g \<in> fst ` set (resources u). located (gens st) (guidToGenId st) resources g)
     \<and> (\<forall>g \<in> fst ` set (relationships u).
           located (gens st) (guidToGenId st) relationships g)"

text \<open>
  The index is consistent when each of its entries gives the 1-based number of a
  generation of \<open>gens\<close> that holds the identifier among its resources or its
  relationships.
\<close>

definition index_consistent :: "context_state \<Rightarrow> bool" where
  "index_consistent st \<longleftrightarrow>
     (\<forall>(g, n) \<in> set (guidToGenId st).
        0 < n \<and> n \<le> length (gens st)
        \<and> (g \<in> fst ` set (resources (gens st ! (n - 1)))
             \<or> g \<in> fst ` set (relationships (gens st ! (n - 1)))))"

section \<open>Example states\<close>

text \<open>
  The state in which the provider starts, and the state after the platform \<open>p\<close> has
  been retrieved into the first generation and made the focus by
  \<open>processRetrievedPlatform\<close>.
\<close>

definition initial_state :: context_state where
  "initial_state =
     \<lparr>focus = \<lparr>category = '''', guid = ''''\<rparr>,
      serverConfig = [(''stored'', JNull), (''active'', JNull), (''matching'', JBool True),
                      (''diffs'', JNull), (''loading'', JStr ''init'')],
      operationState = [(''state'', JStr ''inactive''), (''name'', JStr '''')],
      gens = [],
      guidToGenId = []\<rparr>"

definition platform_p :: entity where
  "platform_p =
     [(''platformName'', JStr ''p''), (''platformRootURL'', JStr ''https://p''),
      (''category'', JStr ''platform''), (''guid'', JStr ''PLATFORM_p'')]"

definition platform_focused :: context_state where
  "platform_focused =
     \<lparr>focus = \<lparr>category = ''platform'', guid = ''PLATFORM_p''\<rparr>,
      serverConfig = [(''stored'', JNull), (''active'', JNull), (''loading'', JStr ''init'')],
      operationState = [(''state'', JStr ''inactive''), (''name'', JStr '''')],
      gens = [\<lparr>resources = [(''PLATFORM_p'', platform_p @ [(''gen'', JNum 1)])],
               relationships = [],
               requestSummary = JStr ''platform p''\<rparr>],
      guidToGenId = [(''PLATFORM_p'', 1)]\<rparr>"

text \<open>
  An update that brings the server \<open>s\<close> of the platform \<open>p\<close> with the edge between
  them and new fields for the platform, and an update that brings the platform alone.
\<close>

definition server_update :: objects where
  "server_update =
     \<lparr>resources =
        [(''PLATFORM_p'', [(''platformName'', JStr ''p''), (''description'', JStr ''primary'')]),
         (''SERVER_INSTANCE_s'', [(''category'', JStr ''server-instance''),
                                  (''serverName'', JStr ''s'')])],
      relationships =
        [(''PLATFORM_TO_SERVER_s'', [(''source'', JStr ''PLATFORM_p''),
                                     (''target'', JStr ''SERVER_INSTANCE_s'')])]\<rparr>"

definition platform_refresh :: objects where
  "platform_refresh =
     \<lparr>resources =
        [(''PLATFORM_p'', [(''platformName'', JStr ''p''), (''description'', JStr ''primary'')])],
      relationships = []\<rparr>"

text \<open>
  A platform may have any name. The platform named \<open>TO_SERVER_s\<close> gets the identifier
  \<open>genPlatformGUID("TO_SERVER_s")\<close>, which is \<open>PLATFORM_TO_SERVER_s\<close>;
  \<open>platform_t_update\<close> is the update that \<open>processRetrievedPlatform\<close> builds for it,
  and \<open>platform_t_loaded\<close> the state after that function has run in the initial state.
\<close>

definition platform_t :: entity where
  "platform_t =
     [(''platformName'', JStr ''TO_SERVER_s''), (''platformRootURL'', JStr ''https://t''),
      (''category'', JStr ''platform''), (''guid'', JStr ''PLATFORM_TO_SERVER_s'')]"

definition platform_t_update :: objects where
  "platform_t_update =
     \<lparr>resources = [(''PLATFORM_TO_SERVER_s'', platform_t)], relationships = []\<rparr>"

definition platform_t_loaded :: context_state where
  "platform_t_loaded =
     \<lparr>focus = \<lparr>category = ''platform'', guid = ''PLATFORM_TO_SERVER_s''\<rparr>,
      serverConfig = [(''stored'', JNull), (''active'', JNull), (''loading'', JStr ''init'')],
      operationState = [(''state'', JStr ''inactive''), (''name'', JStr '''')],
      gens = [\<lparr>resources = [(''PLATFORM_TO_SERVER_s'', platform_t @ [(''gen'', JNum 1)])],
               relationships = [],
               requestSummary = JStr ''platform TO_SERVER_s''\<rparr>],
      guidToGenId = [(''PLATFORM_TO_SERVER_s'', 1)]\<rparr>"

text \<open>
  The update that \<open>loadServersFromPlatformQuery\<close> builds when that platform lists the
  server instance \<open>s\<close>: the server instance under \<open>genServerInstanceGUID("s")\<close> and
  the edge from the platform to it under \<open>genPlatformServerEdgeGUID("s")\<close>, which is
  \<open>PLATFORM_TO_SERVER_s\<close> again.
\<close>

definition server_s :: entity where
  "server_s =
     [(''category'', JStr ''server-instance''), (''serverInstanceName'', JStr ''s''),
      (''serverName'', JStr ''s''), (''isActive'', JBool True),
      (''platformName'', JStr ''TO_SERVER_s''), (''guid'', JStr ''SERVER_INSTANCE_s'')]"

definition edge_s :: entity where
  "edge_s =
     [(''category'', JStr ''platform-server-edge''), (''serverInstanceName'', JStr ''s''),
      (''guid'', JStr ''PLATFORM_TO_SERVER_s''), (''serverName'', JStr ''s''),
      (''platformName'', JStr ''TO_SERVER_s''), (''source'', JStr ''PLATFORM_TO_SERVER_s''),
      (''target'', JStr ''SERVER_INSTANCE_s'')]"

definition server_list_update :: objects where
  "server_list_update =
     \<lparr>resources = [(''SERVER_INSTANCE_s'', server_s)],
      relationships = [(''PLATFORM_TO_SERVER_s'', edge_s)]\<rparr>"

section \<open>Properties of the comparator\<close>





text \<open>
  C2: the comparator is said to walk the union of the keys of the two objects. The
  list it walks is \<open>Object.assign([], activeConfigPropNames, storedConfigPropNames)\<close>,
  in which the stored names overwrite the active names index by index. With the stored
  configuration \<open>{a:1}\<close> and the active configuration \<open>{b:2, a:1}\<close> the list is
  \<open>["a", "a"]\<close>: the key \<open>b\<close> of the active configuration is never examined and the
  two configurations are reported as matching.
\<close>

theorem compareConfigurations_skips_active_key:
  "Object_keys (JObj [(''b'', JNum 2), (''a'', JNum 1)]) = Inr [''b'', ''a'']
   \<and> Object_keys (JObj [(''a'', JNum 1)]) = Inr [''a'']
   \<and> configPropNamesSorted [''b'', ''a''] [''a''] = [''a'', ''a'']
   \<and> compareConfigurations (JObj [(''a'', JNum 1)])
         (JObj [(''b'', JNum 2), (''a'', JNum 1)]) [] [] = Inr (True, [])"
  by (simp add: configPropNamesSorted_def assign_indices_def excludeProps_def)

text \<open>
  C4: comparing a configuration with itself is said to give \<open>matched = true\<close> and an
  empty list for every JSON-compatible object. For \<open>{a: null}\<close> the comparator takes
  the branch for objects, since \<open>typeof null\<close> is \<open>"object"\<close>, and the recursive call
  throws a TypeError at \<open>Object.keys(null)\<close>.
\<close>

theorem compareConfigurations_null_throws:
  "compareConfigurations (JObj [(''a'', JNull)]) (JObj [(''a'', JNull)]) [] []
     = Inl TypeError"
  by (simp add: configPropNamesSorted_def assign_indices_def excludeProps_def)






















section \<open>Properties of the focus and of removal\<close>

text \<open>
  C3: selecting the resource that is the focus is said to clear the focus. The test
  in \<open>changeFocusResource\<close> compares the identifier with \<open>focus.instanceGUID\<close>, a
  property that no focus object has, so the branch that clears the focus is not taken:
  with the platform \<open>PLATFORM_p\<close> as the focus, selecting \<open>PLATFORM_p\<close> sets the
  operation state, calls \<open>loadPlatform\<close> and leaves the focus on \<open>PLATFORM_p\<close>.
\<close>

theorem changeFocusResource_focused_not_cleared:
  "guid (focus platform_focused) = ''PLATFORM_p''
   \<and> changeFocusResource ''PLATFORM_p'' platform_focused
     = Inr (platform_focused\<lparr>operationState :=
              [(''state'', JStr ''loading''), (''name'', JStr ''p'')]\<rparr>,
            [LoadPlatform (JStr ''p'')])
   \<and> focus (platform_focused\<lparr>operationState :=
              [(''state'', JStr ''loading''), (''name'', JStr ''p'')]\<rparr>)
     = \<lparr>category = ''platform'', guid = ''PLATFORM_p''\<rparr>"
  by (simp add: changeFocusResource_def focus_property_def platform_focused_def
        platform_p_def)

text \<open>In every state and for every identifier the focus is as it was before the call.\<close>

lemma changeFocusResource_focus_unchanged:
  assumes "changeFocusResource g st = Inr (st', calls)"
  shows "focus st' = focus st"
proof -
  have "JStr g \<noteq> focus_property (focus st) ''instanceGUID''"
    by (simp add: focus_property_def)
  with assms show ?thesis
    by (auto simp: changeFocusResource_def Let_def split: option.splits if_splits sum.splits)
qed

text \<open>
  C6: when \<open>removeGen\<close> removes the most recent generation, the focus is cleared
  (category and guid both the empty string) if the resources of that generation
  contain the guid of the focus, and it is left as it was if they do not.
\<close>

theorem removeGen_focus:
  assumes "gens st \<noteq> []"
  shows "\<exists>st'. removeGen st = Inr st' \<and>
           (if guid (focus st) \<in> fst ` set (resources (last (gens st)))
            then focus st' = \<lparr>category = '''', guid = ''''\<rparr>
            else focus st' = focus st)"
  using assms by (auto simp add: removeGen_def Let_def map_of_eq_None_iff)

theorem removeGen_focus_witness:
  "(\<exists>st'. removeGen platform_focused = Inr st'
          \<and> focus st' = \<lparr>category = '''', guid = ''''\<rparr>)
   \<and> (\<exists>st'. removeGen (platform_focused\<lparr>focus := \<lparr>category = ''platform'',
                                                   guid = ''PLATFORM_q''\<rparr>\<rparr>) = Inr st'
          \<and> focus st' = \<lparr>category = ''platform'', guid = ''PLATFORM_q''\<rparr>)"
  using removeGen_focus [of platform_focused]
    removeGen_focus [of "platform_focused\<lparr>focus := \<lparr>category = ''platform'',
                                                    guid = ''PLATFORM_q''\<rparr>\<rparr>"]
  by (simp add: platform_focused_def)

text \<open>
  C10: \<open>removeGen\<close> is safe only when there is a generation: on the empty \<open>gens\<close> it
  faults with a TypeError, and on every non-empty \<open>gens\<close> it completes and the new
  \<open>gens\<close> is the old one without its last element, shorter by exactly one.
\<close>

theorem removeGen_total_iff_nonempty:
  "(gens st = [] \<longrightarrow> removeGen st = Inl TypeError)
   \<and> (gens st \<noteq> [] \<longrightarrow>
        (\<exists>st'. removeGen st = Inr st' \<and> gens st' = butlast (gens st)
              \<and> Suc (length (gens st')) = length (gens st)))"
  by (simp add: removeGen_def Let_def)

theorem removeGen_total_iff_nonempty_witness:
  "removeGen initial_state = Inl TypeError
   \<and> (\<exists>st'. removeGen platform_focused = Inr st' \<and> gens st' = []
          \<and> Suc (length (gens st')) = length (gens platform_focused))"
  using removeGen_total_iff_nonempty [of initial_state]
    removeGen_total_iff_nonempty [of platform_focused]
  by (simp add: initial_state_def platform_focused_def)

section \<open>Properties of \<open>updateGens\<close>\<close>

subsection \<open>Association lists and \<open>forEach\<close>\<close>

lemma set_update_subset: "set (AList.update k v al) \<subseteq> insert (k, v) (set al)"
  by (induction al) auto

lemma map_of_Some_key: "map_of al k = Some v \<Longrightarrow> k \<in> fst ` set al"
  by (metis domI dom_map_of_conv_image_fst)

lemma keys_update_known:
  "map_of al k = Some v \<Longrightarrow> fst ` set (AList.update k v' al) = fst ` set al"
  by (simp add: dom_update insert_absorb map_of_Some_key)

lemma forEach_ConsE:
  assumes "forEach f (x # xs) s = Inr s'"
  obtains s1 where "f x s = Inr s1" "forEach f xs s1 = Inr s'"
  using assms by (auto split: sum.splits)

lemma Object_assign_fields:
  assumes "distinct (map fst e)"
  shows "map_of (Object_assign old e) f =
           (case map_of e f of Some v \<Rightarrow> Some v | None \<Rightarrow> map_of old f)"
  using assms unfolding Object_assign_def
proof (induction e arbitrary: old)
  case Nil
  show ?case by simp
next
  case (Cons p e)
  obtain k v where p: "p = (k, v)" by (cases p)
  from Cons.prems have d: "distinct (map fst e)" and fresh: "k \<notin> fst ` set e"
    unfolding p by auto
  from fresh have none: "map_of e k = None" by (simp add: map_of_eq_None_iff)
  have "map_of (fold (\<lambda>(k, v). AList.update k v) e (AList.update k v old)) f
      = (case map_of e f of Some v \<Rightarrow> Some v | None \<Rightarrow> map_of (AList.update k v old) f)"
    using d by (rule Cons.IH)
  with none show ?case
    unfolding p by (simp add: update_conv' split: option.splits)
qed


lemma array_store_append: "array_store a (length a) v = a @ [v]"
  by (simp add: array_store_def)

lemma located_keys_cong:
  assumes "length gs' = length gs"
    and "\<And>i. fst ` set (sel (gs' ! i)) = fst ` set (sel (gs ! i))"
  shows "located gs' known sel g = located gs known sel g"
  using assms by (simp add: located_def split: option.splits)

subsection \<open>The loop over the resources\<close>

lemma update_resource_cases:
  assumes "update_resource known aid (g, e) l = Inr l'"
  obtains (merge) n old where "map_of known g = Some n" "0 < n" "n \<le> length (gens_clone l)"
      "map_of (resources (gens_clone l ! (n - 1))) g = Some old"
      "l' = l\<lparr>gens_clone := (gens_clone l)
              [n - 1 := (gens_clone l ! (n - 1))\<lparr>resources :=
                 AList.update g (Object_assign old e) (resources (gens_clone l ! (n - 1)))\<rparr>]\<rparr>"
    | (add) "map_of known g = None"
      "l' = l\<lparr>addingGen := True,
              ad_gen := (ad_gen l)\<lparr>resources :=
                AList.update g (AList.update ''gen'' (JNum (of_nat aid)) e)
                  (resources (ad_gen l))\<rparr>,
              map_clone := AList.update g aid (map_clone l)\<rparr>"
  using assms
  by (auto simp: update_resource_def Let_def split: option.splits if_splits)

lemma update_resource_step:
  assumes "update_resource known aid (g, e) l = Inr l'"
  shows "length (gens_clone l') = length (gens_clone l)"
    and "fst ` set (resources (gens_clone l' ! i)) = fst ` set (resources (gens_clone l ! i))"
    and "relationships (gens_clone l' ! i) = relationships (gens_clone l ! i)"
    and "relationships (ad_gen l') = relationships (ad_gen l)"
    and "fst ` set (resources (ad_gen l')) =
           fst ` set (resources (ad_gen l)) \<union> (if map_of known g = None then {g} else {})"
    and "addingGen l' = (addingGen l \<or> map_of known g = None)"
    and "set (map_clone l') \<subseteq> set (map_clone l) \<union> (if map_of known g = None then {(g, aid)} else {})"
    and "map_of known g' \<noteq> None \<Longrightarrow> map_of (map_clone l') g' = map_of (map_clone l) g'"
    and "g' \<noteq> g \<Longrightarrow> map_of (resources (gens_clone l' ! i)) g' = map_of (resources (gens_clone l ! i)) g'"
proof -
  show "length (gens_clone l') = length (gens_clone l)"
    using assms by (cases rule: update_resource_cases) simp_all
  show "fst ` set (resources (gens_clone l' ! i)) = fst ` set (resources (gens_clone l ! i))"
    using assms
  proof (cases rule: update_resource_cases)
    case (merge n old)
    then show ?thesis
      by (cases "i = n - 1") (simp_all add: keys_update_known)
  next
    case add
    then show ?thesis by simp
  qed
  show "relationships (gens_clone l' ! i) = relationships (gens_clone l ! i)"
    using assms
  proof (cases rule: update_resource_cases)
    case (merge n old)
    then show ?thesis by (cases "i = n - 1") simp_all
  next
    case add
    then show ?thesis by simp
  qed
  show "relationships (ad_gen l') = relationships (ad_gen l)"
    using assms by (cases rule: update_resource_cases) simp_all
  show "fst ` set (resources (ad_gen l')) =
           fst ` set (resources (ad_gen l)) \<union> (if map_of known g = None then {g} else {})"
    using assms by (cases rule: update_resource_cases) (simp_all add: dom_update)
  show "addingGen l' = (addingGen l \<or> map_of known g = None)"
    using assms by (cases rule: update_resource_cases) simp_all
  show "set (map_clone l') \<subseteq> set (map_clone l) \<union> (if map_of known g = None then {(g, aid)} else {})"
    using assms set_update_subset[of g aid "map_clone l"]
    by (cases rule: update_resource_cases) simp_all
  show "map_of known g' \<noteq> None \<Longrightarrow> map_of (map_clone l') g' = map_of (map_clone l) g'"
    using assms by (cases rule: update_resource_cases) (auto simp: update_conv')
  show "g' \<noteq> g \<Longrightarrow> map_of (resources (gens_clone l' ! i)) g' = map_of (resources (gens_clone l ! i)) g'"
    using assms
  proof (cases rule: update_resource_cases)
    case (merge n old)
    assume "g' \<noteq> g"
    with merge show ?thesis by (cases "i = n - 1") (simp_all add: update_conv')
  next
    case add
    then show ?thesis by simp
  qed
qed

lemma forEach_update_resource:
  assumes "forEach (update_resource known aid) es l = Inr l'"
  shows "length (gens_clone l') = length (gens_clone l)"
    and "fst ` set (resources (gens_clone l' ! i)) = fst ` set (resources (gens_clone l ! i))"
    and "relationships (gens_clone l' ! i) = relationships (gens_clone l ! i)"
    and "relationships (ad_gen l') = relationships (ad_gen l)"
    and "fst ` set (resources (ad_gen l')) =
           fst ` set (resources (ad_gen l)) \<union> {g \<in> fst ` set es. map_of known g = None}"
    and "addingGen l' = (addingGen l \<or> (\<exists>g \<in> fst ` set es. map_of known g = None))"
    and "set (map_clone l') \<subseteq>
           set (map_clone l) \<union> {g \<in> fst ` set es. map_of known g = None} \<times> {aid}"
    and "map_of known g' \<noteq> None \<Longrightarrow> map_of (map_clone l') g' = map_of (map_clone l) g'"
    and "g' \<notin> fst ` set es \<Longrightarrow>
           map_of (resources (gens_clone l' ! i)) g' = map_of (resources (gens_clone l ! i)) g'"
  using assms
proof (induction es arbitrary: l)
  case Nil
  {
    case 1 then show ?case by simp
  next
    case 2 then show ?case by simp
  next
    case 3 then show ?case by simp
  next
    case 4 then show ?case by simp
  next
    case 5 then show ?case by simp
  next
    case 6 then show ?case by simp
  next
    case 7 then show ?case by simp
  next
    case 8 then show ?case by simp
  next
    case 9 then show ?case by simp
  }
next
  case (Cons x es)
  {
    case 1
    obtain g e where x: "x = (g, e)" by (cases x)
    from 1 obtain l1 where s: "update_resource known aid (g, e) l = Inr l1"
      and r: "forEach (update_resource known aid) es l1 = Inr l'"
      unfolding x by (rule forEach_ConsE)
    show ?case using Cons.IH(1)[OF r] update_resource_step(1)[OF s] by simp
  next
    case 2
    obtain g e where x: "x = (g, e)" by (cases x)
    from 2 obtain l1 where s: "update_resource known aid (g, e) l = Inr l1"
      and r: "forEach (update_resource known aid) es l1 = Inr l'"
      unfolding x by (rule forEach_ConsE)
    show ?case using Cons.IH(2)[OF r] update_resource_step(2)[OF s] by simp
  next
    case 3
    obtain g e where x: "x = (g, e)" by (cases x)
    from 3 obtain l1 where s: "update_resource known aid (g, e) l = Inr l1"
      and r: "forEach (update_resource known aid) es l1 = Inr l'"
      unfolding x by (rule forEach_ConsE)
    show ?case using Cons.IH(3)[OF r] update_resource_step(3)[OF s] by simp
  next
    case 4
    obtain g e where x: "x = (g, e)" by (cases x)
    from 4 obtain l1 where s: "update_resource known aid (g, e) l = Inr l1"
      and r: "forEach (update_resource known aid) es l1 = Inr l'"
      unfolding x by (rule forEach_ConsE)
    show ?case using Cons.IH(4)[OF r] update_resource_step(4)[OF s] by simp
  next
    case 5
    obtain g e where x: "x = (g, e)" by (cases x)
    from 5 obtain l1 where s: "update_resource known aid (g, e) l = Inr l1"
      and r: "forEach (update_resource known aid) es l1 = Inr l'"
      unfolding x by (rule forEach_ConsE)
    show ?case using Cons.IH(5)[OF r] update_resource_step(5)[OF s] unfolding x by auto
  next
    case 6
    obtain g e where x: "x = (g, e)" by (cases x)
    from 6 obtain l1 where s: "update_resource known aid (g, e) l = Inr l1"
      and r: "forEach (update_resource known aid) es l1 = Inr l'"
      unfolding x by (rule forEach_ConsE)
    show ?case using Cons.IH(6)[OF r] update_resource_step(6)[OF s] unfolding x by auto
  next
    case 7
    obtain g e where x: "x = (g, e)" by (cases x)
    from 7 obtain l1 where s: "update_resource known aid (g, e) l = Inr l1"
      and r: "forEach (update_resource known aid) es l1 = Inr l'"
      unfolding x by (rule forEach_ConsE)
    show ?case using Cons.IH(7)[OF r] update_resource_step(7)[OF s] unfolding x
      by (auto split: if_splits)
  next
    case 8
    obtain g e where x: "x = (g, e)" by (cases x)
    from 8(2) obtain l1 where s: "update_resource known aid (g, e) l = Inr l1"
      and r: "forEach (update_resource known aid) es l1 = Inr l'"
      unfolding x by (rule forEach_ConsE)
    show ?case using Cons.IH(8)[OF 8(1) r] update_resource_step(8)[OF s 8(1)] by simp
  next
    case 9
    obtain g e where x: "x = (g, e)" by (cases x)
    from 9(2) obtain l1 where s: "update_resource known aid (g, e) l = Inr l1"
      and r: "forEach (update_resource known aid) es l1 = Inr l'"
      unfolding x by (rule forEach_ConsE)
    from 9(1) have ne: "g' \<noteq> g" and nin: "g' \<notin> fst ` set es" unfolding x by auto
    show ?case using Cons.IH(9)[OF nin r] update_resource_step(9)[OF s ne] by simp
  }
qed

lemma update_resource_merges:
  assumes "update_resource known aid (g, e) l = Inr l'" and "map_of known g = Some n"
  shows "\<exists>old. 0 < n \<and> n \<le> length (gens_clone l)
           \<and> map_of (resources (gens_clone l ! (n - 1))) g = Some old
           \<and> map_of (resources (gens_clone l' ! (n - 1))) g = Some (Object_assign old e)"
  using assms(1)
proof (cases rule: update_resource_cases)
  case (merge m old)
  with assms(2) have "m = n" by simp
  with merge show ?thesis by (simp add: update_conv')
next
  case add
  with assms(2) show ?thesis by simp
qed

lemma forEach_update_resource_merges:
  assumes "forEach (update_resource known aid) es l = Inr l'"
    and "distinct (map fst es)" and "(g, e) \<in> set es" and "map_of known g = Some n"
  shows "\<exists>old. 0 < n \<and> n \<le> length (gens_clone l)
           \<and> map_of (resources (gens_clone l ! (n - 1))) g = Some old
           \<and> map_of (resources (gens_clone l' ! (n - 1))) g = Some (Object_assign old e)"
  using assms(1-3)
proof (induction es arbitrary: l)
  case Nil
  then show ?case by simp
next
  case (Cons x es)
  obtain g1 e1 where x: "x = (g1, e1)" by (cases x)
  from Cons.prems(1) obtain l1 where s: "update_resource known aid (g1, e1) l = Inr l1"
    and r: "forEach (update_resource known aid) es l1 = Inr l'"
    unfolding x by (rule forEach_ConsE)
  from Cons.prems(2) have d: "distinct (map fst es)" and fresh: "g1 \<notin> fst ` set es"
    unfolding x by auto
  show ?case
  proof (cases "(g, e) = (g1, e1)")
    case True
    then have ge: "g = g1" "e = e1" by auto
    from update_resource_merges[OF s] assms(4) ge
    obtain old where o: "0 < n" "n \<le> length (gens_clone l)"
        "map_of (resources (gens_clone l ! (n - 1))) g = Some old"
        "map_of (resources (gens_clone l1 ! (n - 1))) g = Some (Object_assign old e)"
      by blast
    from fresh ge have "g \<notin> fst ` set es" by simp
    from forEach_update_resource(9)[OF r this]
    have "map_of (resources (gens_clone l' ! (n - 1))) g
            = map_of (resources (gens_clone l1 ! (n - 1))) g" .
    with o show ?thesis by simp
  next
    case False
    with Cons.prems(3) have mem: "(g, e) \<in> set es" unfolding x by auto
    then have "g \<in> fst ` set es" by (rule image_eqI[rotated]) simp
    with fresh have ne: "g \<noteq> g1" by auto
    from Cons.IH[OF r d mem]
    obtain old where o: "0 < n" "n \<le> length (gens_clone l1)"
        "map_of (resources (gens_clone l1 ! (n - 1))) g = Some old"
        "map_of (resources (gens_clone l' ! (n - 1))) g = Some (Object_assign old e)"
      by blast
    from update_resource_step(1)[OF s] update_resource_step(9)[OF s ne] o
    show ?thesis by simp
  qed
qed

lemma update_resource_succeeds:
  assumes "located (gens_clone l) known resources g"
  shows "\<exists>l'. update_resource known aid (g, e) l = Inr l'"
proof (cases "map_of known g")
  case None
  then show ?thesis by (simp add: update_resource_def)
next
  case (Some n)
  with assms have n: "0 < n" "n \<le> length (gens_clone l)"
    and "g \<in> fst ` set (resources (gens_clone l ! (n - 1)))"
    by (simp_all add: located_def)
  then obtain old where "map_of (resources (gens_clone l ! (n - 1))) g = Some old"
    by (metis map_of_eq_None_iff not_Some_eq)
  with Some n show ?thesis by (simp add: update_resource_def Let_def)
qed

lemma update_resource_located:
  assumes "update_resource known aid (g, e) l = Inr l'"
  shows "located (gens_clone l) known resources g"
  using assms
  by (cases rule: update_resource_cases) (simp_all add: located_def map_of_Some_key)

lemma forEach_update_resource_succeeds:
  "(\<exists>l'. forEach (update_resource known aid) es l = Inr l') \<longleftrightarrow>
   (\<forall>g \<in> fst ` set es. located (gens_clone l) known resources g)"
proof (induction es arbitrary: l)
  case Nil
  show ?case by simp
next
  case (Cons x es)
  obtain g e where x: "x = (g, e)" by (cases x)
  show ?case
  proof
    assume "\<exists>l'. forEach (update_resource known aid) (x # es) l = Inr l'"
    then obtain l' where "forEach (update_resource known aid) ((g, e) # es) l = Inr l'"
      unfolding x by blast
    then obtain l1 where s: "update_resource known aid (g, e) l = Inr l1"
      and r: "forEach (update_resource known aid) es l1 = Inr l'"
      by (rule forEach_ConsE)
    from r Cons.IH have "\<forall>g \<in> fst ` set es. located (gens_clone l1) known resources g"
      by blast
    then have "\<forall>g \<in> fst ` set es. located (gens_clone l) known resources g"
      using located_keys_cong[of "gens_clone l1" "gens_clone l" resources known,
          OF update_resource_step(1,2)[OF s]] by blast
    with update_resource_located[OF s]
    show "\<forall>g \<in> fst ` set (x # es). located (gens_clone l) known resources g"
      unfolding x by simp
  next
    assume a: "\<forall>g \<in> fst ` set (x # es). located (gens_clone l) known resources g"
    then have "located (gens_clone l) known resources g" unfolding x by simp
    then obtain l1 where s: "update_resource known aid (g, e) l = Inr l1"
      using update_resource_succeeds by blast
    from a have "\<forall>g \<in> fst ` set es. located (gens_clone l) known resources g" by simp
    then have "\<forall>g \<in> fst ` set es. located (gens_clone l1) known resources g"
      using located_keys_cong[of "gens_clone l1" "gens_clone l" resources known,
          OF update_resource_step(1,2)[OF s]] by blast
    with Cons.IH obtain l' where "forEach (update_resource known aid) es l1 = Inr l'"
      by blast
    with s show "\<exists>l'. forEach (update_resource known aid) (x # es) l = Inr l'"
      unfolding x by simp
  qed
qed

subsection \<open>The loop over the relationships\<close>

lemma update_relationship_cases:
  assumes "update_relationship known aid (g, e) l = Inr l'"
  obtains (merge) n old where "map_of known g = Some n" "0 < n" "n \<le> length (gens_clone l)"
      "map_of (relationships (gens_clone l ! (n - 1))) g = Some old"
      "l' = l\<lparr>gens_clone := (gens_clone l)
              [n - 1 := (gens_clone l ! (n - 1))\<lparr>relationships :=
                 AList.update g (Object_assign old e) (relationships (gens_clone l ! (n - 1)))\<rparr>]\<rparr>"
    | (add) "map_of known g = None"
      "l' = l\<lparr>addingGen := True,
              ad_gen := (ad_gen l)\<lparr>relationships :=
                AList.update g (AList.update ''gen'' (JNum (of_nat aid)) e)
                  (relationships (ad_gen l))\<rparr>,
              map_clone := AList.update g aid (map_clone l)\<rparr>"
  using assms
  by (auto simp: update_relationship_def Let_def split: option.splits if_splits)

lemma update_relationship_step:
  assumes "update_relationship known aid (g, e) l = Inr l'"
  shows "length (gens_clone l') = length (gens_clone l)"
    and "fst ` set (relationships (gens_clone l' ! i)) = fst ` set (relationships (gens_clone l ! i))"
    and "resources (gens_clone l' ! i) = resources (gens_clone l ! i)"
    and "resources (ad_gen l') = resources (ad_gen l)"
    and "fst ` set (relationships (ad_gen l')) =
           fst ` set (relationships (ad_gen l)) \<union> (if map_of known g = None then {g} else {})"
    and "addingGen l' = (addingGen l \<or> map_of known g = None)"
    and "set (map_clone l') \<subseteq> set (map_clone l) \<union> (if map_of known g = None then {(g, aid)} else {})"
    and "map_of known g' \<noteq> None \<Longrightarrow> map_of (map_clone l') g' = map_of (map_clone l) g'"
    and "g' \<noteq> g \<Longrightarrow> map_of (relationships (gens_clone l' ! i)) g' = map_of (relationships (gens_clone l ! i)) g'"
proof -
  show "length (gens_clone l') = length (gens_clone l)"
    using assms by (cases rule: update_relationship_cases) simp_all
  show "fst ` set (relationships (gens_clone l' ! i)) = fst ` set (relationships (gens_clone l ! i))"
    using assms
  proof (cases rule: update_relationship_cases)
    case (merge n old)
    then show ?thesis
      by (cases "i = n - 1") (simp_all add: keys_update_known)
  next
    case add
    then show ?thesis by simp
  qed
  show "resources (gens_clone l' ! i) = resources (gens_clone l ! i)"
    using assms
  proof (cases rule: update_relationship_cases)
    case (merge n old)
    then show ?thesis by (cases "i = n - 1") simp_all
  next
    case add
    then show ?thesis by simp
  qed
  show "resources (ad_gen l') = resources (ad_gen l)"
    using assms by (cases rule: update_relationship_cases) simp_all
  show "fst ` set (relationships (ad_gen l')) =
           fst ` set (relationships (ad_gen l)) \<union> (if map_of known g = None then {g} else {})"
    using assms by (cases rule: update_relationship_cases) (simp_all add: dom_update)
  show "addingGen l' = (addingGen l \<or> map_of known g = None)"
    using assms by (cases rule: update_relationship_cases) simp_all
  show "set (map_clone l') \<subseteq> set (map_clone l) \<union> (if map_of known g = None then {(g, aid)} else {})"
    using assms set_update_subset[of g aid "map_clone l"]
    by (cases rule: update_relationship_cases) simp_all
  show "map_of known g' \<noteq> None \<Longrightarrow> map_of (map_clone l') g' = map_of (map_clone l) g'"
    using assms by (cases rule: update_relationship_cases) (auto simp: update_conv')
  show "g' \<noteq> g \<Longrightarrow> map_of (relationships (gens_clone l' ! i)) g' = map_of (relationships (gens_clone l ! i)) g'"
    using assms
  proof (cases rule: update_relationship_cases)
    case (merge n old)
    assume "g' \<noteq> g"
    with merge show ?thesis by (cases "i = n - 1") (simp_all add: update_conv')
  next
    case add
    then show ?thesis by simp
  qed
qed

lemma forEach_update_relationship:
  assumes "forEach (update_relationship known aid) es l = Inr l'"
  shows "length (gens_clone l') = length (gens_clone l)"
    and "fst ` set (relationships (gens_clone l' ! i)) = fst ` set (relationships (gens_clone l ! i))"
    and "resources (gens_clone l' ! i) = resources (gens_clone l ! i)"
    and "resources (ad_gen l') = resources (ad_gen l)"
    and "fst ` set (relationships (ad_gen l')) =
           fst ` set (relationships (ad_gen l)) \<union> {g \<in> fst ` set es. map_of known g = None}"
    and "addingGen l' = (addingGen l \<or> (\<exists>g \<in> fst ` set es. map_of known g = None))"
    and "set (map_clone l') \<subseteq>
           set (map_clone l) \<union> {g \<in> fst ` set es. map_of known g = None} \<times> {aid}"
    and "map_of known g' \<noteq> None \<Longrightarrow> map_of (map_clone l') g' = map_of (map_clone l) g'"
    and "g' \<notin> fst ` set es \<Longrightarrow>
           map_of (relationships (gens_clone l' ! i)) g' = map_of (relationships (gens_clone l ! i)) g'"
  using assms
proof (induction es arbitrary: l)
  case Nil
  {
    case 1 then show ?case by simp
  next
    case 2 then show ?case by simp
  next
    case 3 then show ?case by simp
  next
    case 4 then show ?case by simp
  next
    case 5 then show ?case by simp
  next
    case 6 then show ?case by simp
  next
    case 7 then show ?case by simp
  next
    case 8 then show ?case by simp
  next
    case 9 then show ?case by simp
  }
next
  case (Cons x es)
  {
    case 1
    obtain g e where x: "x = (g, e)" by (cases x)
    from 1 obtain l1 where s: "update_relationship known aid (g, e) l = Inr l1"
      and r: "forEach (update_relationship known aid) es l1 = Inr l'"
      unfolding x by (rule forEach_ConsE)
    show ?case using Cons.IH(1)[OF r] update_relationship_step(1)[OF s] by simp
  next
    case 2
    obtain g e where x: "x = (g, e)" by (cases x)
    from 2 obtain l1 where s: "update_relationship known aid (g, e) l = Inr l1"
      and r: "forEach (update_relationship known aid) es l1 = Inr l'"
      unfolding x by (rule forEach_ConsE)
    show ?case using Cons.IH(2)[OF r] update_relationship_step(2)[OF s] by simp
  next
    case 3
    obtain g e where x: "x = (g, e)" by (cases x)
    from 3 obtain l1 where s: "update_relationship known aid (g, e) l = Inr l1"
      and r: "forEach (update_relationship known aid) es l1 = Inr l'"
      unfolding x by (rule forEach_ConsE)
    show ?case using Cons.IH(3)[OF r] update_relationship_step(3)[OF s] by simp
  next
    case 4
    obtain g e where x: "x = (g, e)" by (cases x)
    from 4 obtain l1 where s: "update_relationship known aid (g, e) l = Inr l1"
      and r: "forEach (update_relationship known aid) es l1 = Inr l'"
      unfolding x by (rule forEach_ConsE)
    show ?case using Cons.IH(4)[OF r] update_relationship_step(4)[OF s] by simp
  next
    case 5
    obtain g e where x: "x = (g, e)" by (cases x)
    from 5 obtain l1 where s: "update_relationship known aid (g, e) l = Inr l1"
      and r: "forEach (update_relationship known aid) es l1 = Inr l'"
      unfolding x by (rule forEach_ConsE)
    show ?case using Cons.IH(5)[OF r] update_relationship_step(5)[OF s] unfolding x by auto
  next
    case 6
    obtain g e where x: "x = (g, e)" by (cases x)
    from 6 obtain l1 where s: "update_relationship known aid (g, e) l = Inr l1"
      and r: "forEach (update_relationship known aid) es l1 = Inr l'"
      unfolding x by (rule forEach_ConsE)
    show ?case using Cons.IH(6)[OF r] update_relationship_step(6)[OF s] unfolding x by auto
  next
    case 7
    obtain g e where x: "x = (g, e)" by (cases x)
    from 7 obtain l1 where s: "update_relationship known aid (g, e) l = Inr l1"
      and r: "forEach (update_relationship known aid) es l1 = Inr l'"
      unfolding x by (rule forEach_ConsE)
    show ?case using Cons.IH(7)[OF r] update_relationship_step(7)[OF s] unfolding x
      by (auto split: if_splits)
  next
    case 8
    obtain g e where x: "x = (g, e)" by (cases x)
    from 8(2) obtain l1 where s: "update_relationship known aid (g, e) l = Inr l1"
      and r: "forEach (update_relationship known aid) es l1 = Inr l'"
      unfolding x by (rule forEach_ConsE)
    show ?case using Cons.IH(8)[OF 8(1) r] update_relationship_step(8)[OF s 8(1)] by simp
  next
    case 9
    obtain g e where x: "x = (g, e)" by (cases x)
    from 9(2) obtain l1 where s: "update_relationship known aid (g, e) l = Inr l1"
      and r: "forEach (update_relationship known aid) es l1 = Inr l'"
      unfolding x by (rule forEach_ConsE)
    from 9(1) have ne: "g' \<noteq> g" and nin: "g' \<notin> fst ` set es" unfolding x by auto
    show ?case using Cons.IH(9)[OF nin r] update_relationship_step(9)[OF s ne] by simp
  }
qed

lemma update_relationship_merges:
  assumes "update_relationship known aid (g, e) l = Inr l'" and "map_of known g = Some n"
  shows "\<exists>old. 0 < n \<and> n \<le> length (gens_clone l)
           \<and> map_of (relationships (gens_clone l ! (n - 1))) g = Some old
           \<and> map_of (relationships (gens_clone l' ! (n - 1))) g = Some (Object_assign old e)"
  using assms(1)
proof (cases rule: update_relationship_cases)
  case (merge m old)
  with assms(2) have "m = n" by simp
  with merge show ?thesis by (simp add: update_conv')
next
  case add
  with assms(2) show ?thesis by simp
qed

lemma forEach_update_relationship_merges:
  assumes "forEach (update_relationship known aid) es l = Inr l'"
    and "distinct (map fst es)" and "(g, e) \<in> set es" and "map_of known g = Some n"
  shows "\<exists>old. 0 < n \<and> n \<le> length (gens_clone l)
           \<and> map_of (relationships (gens_clone l ! (n - 1))) g = Some old
           \<and> map_of (relationships (gens_clone l' ! (n - 1))) g = Some (Object_assign old e)"
  using assms(1-3)
proof (induction es arbitrary: l)
  case Nil
  then show ?case by simp
next
  case (Cons x es)
  obtain g1 e1 where x: "x = (g1, e1)" by (cases x)
  from Cons.prems(1) obtain l1 where s: "update_relationship known aid (g1, e1) l = Inr l1"
    and r: "forEach (update_relationship known aid) es l1 = Inr l'"
    unfolding x by (rule forEach_ConsE)
  from Cons.prems(2) have d: "distinct (map fst es)" and fresh: "g1 \<notin> fst ` set es"
    unfolding x by auto
  show ?case
  proof (cases "(g, e) = (g1, e1)")
    case True
    then have ge: "g = g1" "e = e1" by auto
    from update_relationship_merges[OF s] assms(4) ge
    obtain old where o: "0 < n" "n \<le> length (gens_clone l)"
        "map_of (relationships (gens_clone l ! (n - 1))) g = Some old"
        "map_of (relationships (gens_clone l1 ! (n - 1))) g = Some (Object_assign old e)"
      by blast
    from fresh ge have "g \<notin> fst ` set es" by simp
    from forEach_update_relationship(9)[OF r this]
    have "map_of (relationships (gens_clone l' ! (n - 1))) g
            = map_of (relationships (gens_clone l1 ! (n - 1))) g" .
    with o show ?thesis by simp
  next
    case False
    with Cons.prems(3) have mem: "(g, e) \<in> set es" unfolding x by auto
    then have "g \<in> fst ` set es" by (rule image_eqI[rotated]) simp
    with fresh have ne: "g \<noteq> g1" by auto
    from Cons.IH[OF r d mem]
    obtain old where o: "0 < n" "n \<le> length (gens_clone l1)"
        "map_of (relationships (gens_clone l1 ! (n - 1))) g = Some old"
        "map_of (relationships (gens_clone l' ! (n - 1))) g = Some (Object_assign old e)"
      by blast
    from update_relationship_step(1)[OF s] update_relationship_step(9)[OF s ne] o
    show ?thesis by simp
  qed
qed

lemma update_relationship_succeeds:
  assumes "located (gens_clone l) known relationships g"
  shows "\<exists>l'. update_relationship known aid (g, e) l = Inr l'"
proof (cases "map_of known g")
  case None
  then show ?thesis by (simp add: update_relationship_def)
next
  case (Some n)
  with assms have n: "0 < n" "n \<le> length (gens_clone l)"
    and "g \<in> fst ` set (relationships (gens_clone l ! (n - 1)))"
    by (simp_all add: located_def)
  then obtain old where "map_of (relationships (gens_clone l ! (n - 1))) g = Some old"
    by (metis map_of_eq_None_iff not_Some_eq)
  with Some n show ?thesis by (simp add: update_relationship_def Let_def)
qed

lemma update_relationship_located:
  assumes "update_relationship known aid (g, e) l = Inr l'"
  shows "located (gens_clone l) known relationships g"
  using assms
  by (cases rule: update_relationship_cases) (simp_all add: located_def map_of_Some_key)

lemma forEach_update_relationship_succeeds:
  "(\<exists>l'. forEach (update_relationship known aid) es l = Inr l') \<longleftrightarrow>
   (\<forall>g \<in> fst ` set es. located (gens_clone l) known relationships g)"
proof (induction es arbitrary: l)
  case Nil
  show ?case by simp
next
  case (Cons x es)
  obtain g e where x: "x = (g, e)" by (cases x)
  show ?case
  proof
    assume "\<exists>l'. forEach (update_relationship known aid) (x # es) l = Inr l'"
    then obtain l' where "forEach (update_relationship known aid) ((g, e) # es) l = Inr l'"
      unfolding x by blast
    then obtain l1 where s: "update_relationship known aid (g, e) l = Inr l1"
      and r: "forEach (update_relationship known aid) es l1 = Inr l'"
      by (rule forEach_ConsE)
    from r Cons.IH have "\<forall>g \<in> fst ` set es. located (gens_clone l1) known relationships g"
      by blast
    then have "\<forall>g \<in> fst ` set es. located (gens_clone l) known relationships g"
      using located_keys_cong[of "gens_clone l1" "gens_clone l" relationships known,
          OF update_relationship_step(1,2)[OF s]] by blast
    with update_relationship_located[OF s]
    show "\<forall>g \<in> fst ` set (x # es). located (gens_clone l) known relationships g"
      unfolding x by simp
  next
    assume a: "\<forall>g \<in> fst ` set (x # es). located (gens_clone l) known relationships g"
    then have "located (gens_clone l) known relationships g" unfolding x by simp
    then obtain l1 where s: "update_relationship known aid (g, e) l = Inr l1"
      using update_relationship_succeeds by blast
    from a have "\<forall>g \<in> fst ` set es. located (gens_clone l) known relationships g" by simp
    then have "\<forall>g \<in> fst ` set es. located (gens_clone l1) known relationships g"
      using located_keys_cong[of "gens_clone l1" "gens_clone l" relationships known,
          OF update_relationship_step(1,2)[OF s]] by blast
    with Cons.IH obtain l' where "forEach (update_relationship known aid) es l1 = Inr l'"
      by blast
    with s show "\<exists>l'. forEach (update_relationship known aid) (x # es) l = Inr l'"
      unfolding x by simp
  qed
qed

subsection \<open>The whole operation\<close>

lemma set_new_ids: "set (new_ids known es) = {g \<in> fst ` set es. map_of known g = None}"
  by (auto simp: new_ids_def)

lemma createEmptyGen_fields [simp]:
  "resources (createEmptyGen rs) = []" "relationships (createEmptyGen rs) = []"
  by (simp_all add: createEmptyGen_def)

lemma updateGens_InrE:
  assumes "updateGens u rs st = Inr st'"
  obtains l1 l2 where
    "forEach (update_resource (guidToGenId st) (Suc (length (gens st)))) (resources u)
       \<lparr>gens_clone = gens st, map_clone = guidToGenId st, addingGen = False,
        ad_gen = createEmptyGen rs\<rparr> = Inr l1"
    "forEach (update_relationship (guidToGenId st) (Suc (length (gens st)))) (relationships u) l1
       = Inr l2"
    "st' = st\<lparr>gens := (if addingGen l2
                        then array_store (gens_clone l2) (length (gens st)) (ad_gen l2)
                        else gens_clone l2),
              guidToGenId := (if addingGen l2 then map_clone l2 else guidToGenId st)\<rparr>"
  using assms
  by (auto simp: updateGens_def getLatestGenId_def Let_def split: sum.splits)

lemma updateGens_InrI:
  assumes
    "forEach (update_resource (guidToGenId st) (Suc (length (gens st)))) (resources u)
       \<lparr>gens_clone = gens st, map_clone = guidToGenId st, addingGen = False,
        ad_gen = createEmptyGen rs\<rparr> = Inr l1"
    "forEach (update_relationship (guidToGenId st) (Suc (length (gens st)))) (relationships u) l1
       = Inr l2"
  shows "updateGens u rs st =
     Inr (st\<lparr>gens := (if addingGen l2
                        then array_store (gens_clone l2) (length (gens st)) (ad_gen l2)
                        else gens_clone l2),
              guidToGenId := (if addingGen l2 then map_clone l2 else guidToGenId st)\<rparr>)"
  using assms
  by (simp add: updateGens_def getLatestGenId_def Let_def)

lemma updateGens_defined_iff:
  "(\<exists>st'. updateGens u rs st = Inr st') \<longleftrightarrow> known_located st u"
proof
  assume "\<exists>st'. updateGens u rs st = Inr st'"
  then obtain st' where "updateGens u rs st = Inr st'" ..
  then obtain l1 l2 where
    r: "forEach (update_resource (guidToGenId st) (Suc (length (gens st)))) (resources u)
       \<lparr>gens_clone = gens st, map_clone = guidToGenId st, addingGen = False,
        ad_gen = createEmptyGen rs\<rparr> = Inr l1"
    and q: "forEach (update_relationship (guidToGenId st) (Suc (length (gens st))))
       (relationships u) l1 = Inr l2"
    by (rule updateGens_InrE)
  have a: "\<forall>g \<in> fst ` set (resources u).
      located (gens st) (guidToGenId st) resources g"
    using forEach_update_resource_succeeds[THEN iffD1, OF exI, OF r] by simp
  have "\<forall>g \<in> fst ` set (relationships u).
      located (gens_clone l1) (guidToGenId st) relationships g"
    by (rule forEach_update_relationship_succeeds[THEN iffD1, OF exI, OF q])
  moreover have "located (gens_clone l1) (guidToGenId st) relationships g
      = located (gens st) (guidToGenId st) relationships g" for g
    using forEach_update_resource(1,3)[OF r] by (simp add: located_def split: option.splits)
  ultimately show "known_located st u" using a by (simp add: known_located_def)
next
  assume k: "known_located st u"
  then have "\<forall>g \<in> fst ` set (resources u).
      located (gens_clone \<lparr>gens_clone = gens st, map_clone = guidToGenId st, addingGen = False,
        ad_gen = createEmptyGen rs\<rparr>) (guidToGenId st) resources g"
    by (simp add: known_located_def)
  from forEach_update_resource_succeeds[THEN iffD2, OF this]
  obtain l1 where
    r: "forEach (update_resource (guidToGenId st) (Suc (length (gens st)))) (resources u)
       \<lparr>gens_clone = gens st, map_clone = guidToGenId st, addingGen = False,
        ad_gen = createEmptyGen rs\<rparr> = Inr l1" ..
  have "located (gens_clone l1) (guidToGenId st) relationships g
      = located (gens st) (guidToGenId st) relationships g" for g
    using forEach_update_resource(1,3)[OF r] by (simp add: located_def split: option.splits)
  with k have "\<forall>g \<in> fst ` set (relationships u).
      located (gens_clone l1) (guidToGenId st) relationships g"
    by (simp add: known_located_def)
  from forEach_update_relationship_succeeds[THEN iffD2, OF this]
  obtain l2 where
    q: "forEach (update_relationship (guidToGenId st) (Suc (length (gens st))))
       (relationships u) l1 = Inr l2" ..
  from updateGens_InrI[OF r q] show "\<exists>st'. updateGens u rs st = Inr st'" by blast
qed

lemma updateGens_locals:
  assumes r: "forEach (update_resource (guidToGenId st) (Suc (length (gens st)))) (resources u)
       \<lparr>gens_clone = gens st, map_clone = guidToGenId st, addingGen = False,
        ad_gen = createEmptyGen rs\<rparr> = Inr l1"
    and q: "forEach (update_relationship (guidToGenId st) (Suc (length (gens st))))
       (relationships u) l1 = Inr l2"
  shows "length (gens_clone l2) = length (gens st)"
    and "fst ` set (resources (gens_clone l2 ! i)) = fst ` set (resources (gens st ! i))"
    and "fst ` set (relationships (gens_clone l2 ! i)) = fst ` set (relationships (gens st ! i))"
    and "fst ` set (resources (ad_gen l2)) = set (new_ids (guidToGenId st) (resources u))"
    and "fst ` set (relationships (ad_gen l2)) = set (new_ids (guidToGenId st) (relationships u))"
    and "addingGen l2 \<longleftrightarrow> \<not> (new_ids (guidToGenId st) (resources u) = []
           \<and> new_ids (guidToGenId st) (relationships u) = [])"
    and "set (map_clone l2) \<subseteq> set (guidToGenId st)
           \<union> (set (new_ids (guidToGenId st) (resources u))
               \<union> set (new_ids (guidToGenId st) (relationships u))) \<times> {Suc (length (gens st))}"
    and "map_of (guidToGenId st) g \<noteq> None \<Longrightarrow> map_of (map_clone l2) g = map_of (guidToGenId st) g"
proof -
  show "length (gens_clone l2) = length (gens st)"
    using forEach_update_resource(1)[OF r] forEach_update_relationship(1)[OF q] by simp
  show "fst ` set (resources (gens_clone l2 ! i)) = fst ` set (resources (gens st ! i))"
    using forEach_update_resource(2)[OF r, of i] forEach_update_relationship(3)[OF q, of i]
    by simp
  show "fst ` set (relationships (gens_clone l2 ! i)) = fst ` set (relationships (gens st ! i))"
    using forEach_update_resource(3)[OF r, of i] forEach_update_relationship(2)[OF q, of i]
    by simp
  show "fst ` set (resources (ad_gen l2)) = set (new_ids (guidToGenId st) (resources u))"
    using forEach_update_resource(5)[OF r] forEach_update_relationship(4)[OF q]
    by (simp add: set_new_ids)
  show "fst ` set (relationships (ad_gen l2)) = set (new_ids (guidToGenId st) (relationships u))"
    using forEach_update_resource(4)[OF r] forEach_update_relationship(5)[OF q]
    by (simp add: set_new_ids)
  have "addingGen l2 \<longleftrightarrow> set (new_ids (guidToGenId st) (resources u)) \<noteq> {}
      \<or> set (new_ids (guidToGenId st) (relationships u)) \<noteq> {}"
    using forEach_update_resource(6)[OF r] forEach_update_relationship(6)[OF q]
    unfolding set_new_ids by auto
  then show "addingGen l2 \<longleftrightarrow> \<not> (new_ids (guidToGenId st) (resources u) = []
           \<and> new_ids (guidToGenId st) (relationships u) = [])"
    by simp
  show "set (map_clone l2) \<subseteq> set (guidToGenId st)
           \<union> (set (new_ids (guidToGenId st) (resources u))
               \<union> set (new_ids (guidToGenId st) (relationships u))) \<times> {Suc (length (gens st))}"
    using forEach_update_resource(7)[OF r] forEach_update_relationship(7)[OF q]
    unfolding set_new_ids by auto
  show "map_of (guidToGenId st) g \<noteq> None \<Longrightarrow> map_of (map_clone l2) g = map_of (guidToGenId st) g"
    using forEach_update_resource(8)[OF r, of g] forEach_update_relationship(8)[OF q, of g]
    by simp
qed

text \<open>
  The first retrieval of the platform \<open>p\<close> gives the generations and the index of
  \<open>platform_focused\<close>.
\<close>

lemma updateGens_initial_state:
  "updateGens \<lparr>resources = [(''PLATFORM_p'', platform_p)], relationships = []\<rparr>
     (JStr ''platform p'') initial_state
   = Inr (initial_state\<lparr>gens := gens platform_focused,
                           guidToGenId := guidToGenId platform_focused\<rparr>)"
  by (simp add: updateGens_def update_resource_def getLatestGenId_def createEmptyGen_def
        array_store_def initial_state_def platform_focused_def platform_p_def)

lemma known_located_server_update: "known_located platform_focused server_update"
  by (simp add: known_located_def located_def platform_focused_def server_update_def)

lemma known_located_platform_refresh: "known_located platform_focused platform_refresh"
  by (simp add: known_located_def located_def platform_focused_def platform_refresh_def)

lemma updateGens_server_update:
  "updateGens server_update (JStr ''servers of p'') platform_focused =
     Inr (platform_focused\<lparr>
       gens :=
         [\<lparr>resources =
             [(''PLATFORM_p'',
               [(''platformName'', JStr ''p''), (''platformRootURL'', JStr ''https://p''),
                (''category'', JStr ''platform''), (''guid'', JStr ''PLATFORM_p''),
                (''gen'', JNum 1), (''description'', JStr ''primary'')])],
           relationships = [],
           requestSummary = JStr ''platform p''\<rparr>,
          \<lparr>resources =
             [(''SERVER_INSTANCE_s'',
               [(''category'', JStr ''server-instance''), (''serverName'', JStr ''s''),
                (''gen'', JNum 2)])],
           relationships =
             [(''PLATFORM_TO_SERVER_s'',
               [(''source'', JStr ''PLATFORM_p''), (''target'', JStr ''SERVER_INSTANCE_s''),
                (''gen'', JNum 2)])],
           requestSummary = JStr ''servers of p''\<rparr>],
       guidToGenId :=
         [(''PLATFORM_p'', 1), (''SERVER_INSTANCE_s'', 2), (''PLATFORM_TO_SERVER_s'', 2)]\<rparr>)"
  by (simp add: updateGens_def update_resource_def update_relationship_def
        getLatestGenId_def createEmptyGen_def array_store_def Object_assign_def
        platform_focused_def platform_p_def server_update_def)

text \<open>
  When every known identifier of the update is located, that is, found in its
  generation under the kind (resource or relationship) under which the update supplies
  it, the call completes. If the update holds at least one identifier that is not in
  \<open>guidToGenId\<close>, the call appends exactly one generation, and the new identifiers
  are the keys of that generation: the new resources are its resources and the new
  relationships its relationships. If every identifier of the update is known, the
  length of \<open>gens\<close> does not change. In both cases the generations that were there
  keep their places and their keys.
\<close>

lemma updateGens_located_appends_one_generation:
  assumes "known_located st u"
  shows "\<exists>st'. updateGens u rs st = Inr st'
     \<and> (\<forall>i < length (gens st).
            fst ` set (resources (gens st' ! i)) = fst ` set (resources (gens st ! i))
            \<and> fst ` set (relationships (gens st' ! i))
                = fst ` set (relationships (gens st ! i)))
     \<and> (if new_ids (guidToGenId st) (resources u) = []
           \<and> new_ids (guidToGenId st) (relationships u) = []
        then length (gens st') = length (gens st)
        else length (gens st') = Suc (length (gens st))
           \<and> fst ` set (resources (last (gens st')))
               = set (new_ids (guidToGenId st) (resources u))
           \<and> fst ` set (relationships (last (gens st')))
               = set (new_ids (guidToGenId st) (relationships u)))"
proof -
  from assms obtain st' where u: "updateGens u rs st = Inr st'"
    using updateGens_defined_iff[THEN iffD2] by blast
  then obtain l1 l2 where
    r: "forEach (update_resource (guidToGenId st) (Suc (length (gens st)))) (resources u)
       \<lparr>gens_clone = gens st, map_clone = guidToGenId st, addingGen = False,
        ad_gen = createEmptyGen rs\<rparr> = Inr l1"
    and q: "forEach (update_relationship (guidToGenId st) (Suc (length (gens st))))
       (relationships u) l1 = Inr l2"
    and st': "st' = st\<lparr>gens := (if addingGen l2
                        then array_store (gens_clone l2) (length (gens st)) (ad_gen l2)
                        else gens_clone l2),
              guidToGenId := (if addingGen l2 then map_clone l2 else guidToGenId st)\<rparr>"
    by (rule updateGens_InrE)
  note f = updateGens_locals[OF r q]
  have len: "length (gens_clone l2) = length (gens st)" by (rule f(1))
  have gens': "gens st' = (if addingGen l2 then gens_clone l2 @ [ad_gen l2] else gens_clone l2)"
    using st' len array_store_append[of "gens_clone l2" "ad_gen l2"] by simp
  have "gens st' ! i = gens_clone l2 ! i" if "i < length (gens st)" for i
    using that len gens' by (simp add: nth_append)
  with f(2,3) have earlier: "\<forall>i < length (gens st).
            fst ` set (resources (gens st' ! i)) = fst ` set (resources (gens st ! i))
            \<and> fst ` set (relationships (gens st' ! i))
                = fst ` set (relationships (gens st ! i))"
    by simp
  have count: "if new_ids (guidToGenId st) (resources u) = []
           \<and> new_ids (guidToGenId st) (relationships u) = []
        then length (gens st') = length (gens st)
        else length (gens st') = Suc (length (gens st))
           \<and> fst ` set (resources (last (gens st')))
               = set (new_ids (guidToGenId st) (resources u))
           \<and> fst ` set (relationships (last (gens st')))
               = set (new_ids (guidToGenId st) (relationships u))"
  proof (cases "addingGen l2")
    case True
    with gens' have g: "gens st' = gens_clone l2 @ [ad_gen l2]" by simp
    from True f(6) have "\<not> (new_ids (guidToGenId st) (resources u) = []
           \<and> new_ids (guidToGenId st) (relationships u) = [])" by simp
    with g len f(4,5) show ?thesis by simp
  next
    case False
    with gens' have g: "gens st' = gens_clone l2" by simp
    from False f(6) have "new_ids (guidToGenId st) (resources u) = []
           \<and> new_ids (guidToGenId st) (relationships u) = []" by simp
    with g len show ?thesis by simp
  qed
  from u earlier count show ?thesis by blast
qed

lemma updateGens_located_appends_one_generation_example:
  "known_located platform_focused server_update
   \<and> (\<exists>st'. updateGens server_update (JStr ''servers of p'') platform_focused = Inr st'
          \<and> length (gens st') = Suc (length (gens platform_focused))
          \<and> fst ` set (resources (last (gens st'))) = {''SERVER_INSTANCE_s''}
          \<and> fst ` set (relationships (last (gens st'))) = {''PLATFORM_TO_SERVER_s''})
   \<and> known_located platform_focused platform_refresh
   \<and> (\<exists>st'. updateGens platform_refresh (JStr ''platform p'') platform_focused = Inr st'
          \<and> length (gens st') = length (gens platform_focused))"
proof -
  have a: "new_ids (guidToGenId platform_focused) (resources server_update)
      = [''SERVER_INSTANCE_s'']"
    by (simp add: new_ids_def platform_focused_def server_update_def)
  have b: "new_ids (guidToGenId platform_focused) (relationships server_update)
      = [''PLATFORM_TO_SERVER_s'']"
    by (simp add: new_ids_def platform_focused_def server_update_def)
  have c: "new_ids (guidToGenId platform_focused) (resources platform_refresh) = []"
    by (simp add: new_ids_def platform_focused_def platform_refresh_def)
  have d: "new_ids (guidToGenId platform_focused) (relationships platform_refresh) = []"
    by (simp add: new_ids_def platform_focused_def platform_refresh_def)
  from updateGens_located_appends_one_generation
        [OF known_located_server_update, of "JStr ''servers of p''"]
  have e: "\<exists>st'. updateGens server_update (JStr ''servers of p'') platform_focused = Inr st'
          \<and> length (gens st') = Suc (length (gens platform_focused))
          \<and> fst ` set (resources (last (gens st'))) = {''SERVER_INSTANCE_s''}
          \<and> fst ` set (relationships (last (gens st'))) = {''PLATFORM_TO_SERVER_s''}"
    by (auto simp add: a b)
  from updateGens_located_appends_one_generation
        [OF known_located_platform_refresh, of "JStr ''platform p''"]
  have f: "\<exists>st'. updateGens platform_refresh (JStr ''platform p'') platform_focused = Inr st'
          \<and> length (gens st') = length (gens platform_focused)"
    by (auto simp add: c d)
  from e f known_located_server_update known_located_platform_refresh
  show ?thesis by simp
qed

text \<open>
  When every known identifier of the update is located, a call of \<open>updateGens\<close>
  leaves the entry of the index of a known identifier as it was, puts the identifier
  in no appended generation, and merges the supplied fields into the entity in its
  original generation: the entity becomes \<open>Object.assign(old, update)\<close>, in which a
  field of the update has the update's value and every other field keeps its old
  value.
\<close>

lemma updateGens_located_known_identifier:
  assumes "known_located st u" and "map_of (guidToGenId st) g = Some n"
  shows "\<exists>st'. updateGens u rs st = Inr st'
     \<and> map_of (guidToGenId st') g = Some n
     \<and> (\<forall>i. length (gens st) \<le> i \<and> i < length (gens st') \<longrightarrow>
            g \<notin> fst ` set (resources (gens st' ! i))
            \<and> g \<notin> fst ` set (relationships (gens st' ! i)))
     \<and> (\<forall>e. distinct (map fst (resources u)) \<and> (g, e) \<in> set (resources u) \<longrightarrow>
            0 < n \<and> n \<le> length (gens st)
            \<and> (\<exists>old merged.
                  map_of (resources (gens st ! (n - 1))) g = Some old
                  \<and> map_of (resources (gens st' ! (n - 1))) g = Some merged
                  \<and> merged = Object_assign old e
                  \<and> (distinct (map fst e) \<longrightarrow>
                       (\<forall>f. map_of merged f =
                          (case map_of e f of Some v \<Rightarrow> Some v | None \<Rightarrow> map_of old f)))))
     \<and> (\<forall>e. distinct (map fst (relationships u)) \<and> (g, e) \<in> set (relationships u) \<longrightarrow>
            0 < n \<and> n \<le> length (gens st)
            \<and> (\<exists>old merged.
                  map_of (relationships (gens st ! (n - 1))) g = Some old
                  \<and> map_of (relationships (gens st' ! (n - 1))) g = Some merged
                  \<and> merged = Object_assign old e
                  \<and> (distinct (map fst e) \<longrightarrow>
                       (\<forall>f. map_of merged f =
                          (case map_of e f of Some v \<Rightarrow> Some v | None \<Rightarrow> map_of old f)))))"
proof -
  from assms(1) obtain st' where u: "updateGens u rs st = Inr st'"
    using updateGens_defined_iff[THEN iffD2] by blast
  then obtain l1 l2 where
    r: "forEach (update_resource (guidToGenId st) (Suc (length (gens st)))) (resources u)
       \<lparr>gens_clone = gens st, map_clone = guidToGenId st, addingGen = False,
        ad_gen = createEmptyGen rs\<rparr> = Inr l1"
    and q: "forEach (update_relationship (guidToGenId st) (Suc (length (gens st))))
       (relationships u) l1 = Inr l2"
    and st': "st' = st\<lparr>gens := (if addingGen l2
                        then array_store (gens_clone l2) (length (gens st)) (ad_gen l2)
                        else gens_clone l2),
              guidToGenId := (if addingGen l2 then map_clone l2 else guidToGenId st)\<rparr>"
    by (rule updateGens_InrE)
  note f = updateGens_locals[OF r q]
  have len: "length (gens_clone l2) = length (gens st)" by (rule f(1))
  have gens': "gens st' = (if addingGen l2 then gens_clone l2 @ [ad_gen l2] else gens_clone l2)"
    using st' len array_store_append[of "gens_clone l2" "ad_gen l2"] by simp
  have old_gens: "gens st' ! i = gens_clone l2 ! i" if "i < length (gens st)" for i
    using that len gens' by (simp add: nth_append)
  have notnew: "g \<notin> set (new_ids (guidToGenId st) es)" for es
    using assms(2) by (simp add: set_new_ids)
  have idx: "map_of (guidToGenId st') g = Some n"
    using st' f(8)[of g] assms(2) by simp
  have appended: "g \<notin> fst ` set (resources (gens st' ! i))
      \<and> g \<notin> fst ` set (relationships (gens st' ! i))"
    if "length (gens st) \<le> i" "i < length (gens st')" for i
  proof (cases "addingGen l2")
    case True
    with that gens' len have "i = length (gens_clone l2)" by simp
    with True gens' have "gens st' ! i = ad_gen l2" by simp
    with f(4,5) notnew show ?thesis by simp
  next
    case False
    with that gens' len show ?thesis by simp
  qed
  have res: "0 < n \<and> n \<le> length (gens st)
            \<and> (\<exists>old merged.
                  map_of (resources (gens st ! (n - 1))) g = Some old
                  \<and> map_of (resources (gens st' ! (n - 1))) g = Some merged
                  \<and> merged = Object_assign old e
                  \<and> (distinct (map fst e) \<longrightarrow>
                       (\<forall>f. map_of merged f =
                          (case map_of e f of Some v \<Rightarrow> Some v | None \<Rightarrow> map_of old f))))"
    if d: "distinct (map fst (resources u))" and mem: "(g, e) \<in> set (resources u)" for e
  proof -
    from forEach_update_resource_merges[OF r d mem assms(2)]
    obtain old where o: "0 < n" "n \<le> length (gens st)"
        "map_of (resources (gens st ! (n - 1))) g = Some old"
        "map_of (resources (gens_clone l1 ! (n - 1))) g = Some (Object_assign old e)"
      by auto
    from o(1,2) have "n - 1 < length (gens st)" by simp
    then have "gens st' ! (n - 1) = gens_clone l2 ! (n - 1)" by (rule old_gens)
    with forEach_update_relationship(3)[OF q, of "n - 1"] o(4)
    have "map_of (resources (gens st' ! (n - 1))) g = Some (Object_assign old e)" by simp
    with o(1-3) show ?thesis by (simp add: Object_assign_fields)
  qed
  have rel: "0 < n \<and> n \<le> length (gens st)
            \<and> (\<exists>old merged.
                  map_of (relationships (gens st ! (n - 1))) g = Some old
                  \<and> map_of (relationships (gens st' ! (n - 1))) g = Some merged
                  \<and> merged = Object_assign old e
                  \<and> (distinct (map fst e) \<longrightarrow>
                       (\<forall>f. map_of merged f =
                          (case map_of e f of Some v \<Rightarrow> Some v | None \<Rightarrow> map_of old f))))"
    if d: "distinct (map fst (relationships u))" and mem: "(g, e) \<in> set (relationships u)" for e
  proof -
    from forEach_update_relationship_merges[OF q d mem assms(2)]
    obtain old where o: "0 < n" "n \<le> length (gens_clone l1)"
        "map_of (relationships (gens_clone l1 ! (n - 1))) g = Some old"
        "map_of (relationships (gens_clone l2 ! (n - 1))) g = Some (Object_assign old e)"
      by auto
    from o(2) forEach_update_resource(1)[OF r] have n: "n \<le> length (gens st)" by simp
    with o(1) have "n - 1 < length (gens st)" by simp
    then have "gens st' ! (n - 1) = gens_clone l2 ! (n - 1)" by (rule old_gens)
    with forEach_update_resource(3)[OF r, of "n - 1"] o n
    show ?thesis by (simp add: Object_assign_fields)
  qed
  from u idx appended res rel show ?thesis by blast
qed

lemma updateGens_located_known_identifier_example:
  "known_located platform_focused server_update
   \<and> map_of (guidToGenId platform_focused) ''PLATFORM_p'' = Some 1
   \<and> (\<exists>st'. updateGens server_update (JStr ''servers of p'') platform_focused = Inr st'
          \<and> map_of (guidToGenId st') ''PLATFORM_p'' = Some 1
          \<and> ''PLATFORM_p'' \<notin> fst ` set (resources (gens st' ! 1))
          \<and> map_of (resources (gens st' ! 0)) ''PLATFORM_p''
              = Some [(''platformName'', JStr ''p''), (''platformRootURL'', JStr ''https://p''),
                      (''category'', JStr ''platform''), (''guid'', JStr ''PLATFORM_p''),
                      (''gen'', JNum 1), (''description'', JStr ''primary'')])"
proof -
  have k: "map_of (guidToGenId platform_focused) ''PLATFORM_p'' = Some 1"
    by (simp add: platform_focused_def)
  from updateGens_located_known_identifier[OF known_located_server_update k, of "JStr ''servers of p''"]
  obtain st' where u: "updateGens server_update (JStr ''servers of p'') platform_focused = Inr st'"
    and i: "map_of (guidToGenId st') ''PLATFORM_p'' = Some 1"
    and n: "\<forall>i. length (gens platform_focused) \<le> i \<and> i < length (gens st') \<longrightarrow>
            ''PLATFORM_p'' \<notin> fst ` set (resources (gens st' ! i))
            \<and> ''PLATFORM_p'' \<notin> fst ` set (relationships (gens st' ! i))"
    and m: "\<forall>e. distinct (map fst (resources server_update))
              \<and> (''PLATFORM_p'', e) \<in> set (resources server_update) \<longrightarrow>
            (0::nat) < 1 \<and> 1 \<le> length (gens platform_focused)
            \<and> (\<exists>old merged.
                  map_of (resources (gens platform_focused ! (1 - 1))) ''PLATFORM_p'' = Some old
                  \<and> map_of (resources (gens st' ! (1 - 1))) ''PLATFORM_p'' = Some merged
                  \<and> merged = Object_assign old e
                  \<and> (distinct (map fst e) \<longrightarrow>
                       (\<forall>f. map_of merged f =
                          (case map_of e f of Some v \<Rightarrow> Some v | None \<Rightarrow> map_of old f))))"
    by blast
  from u have len: "length (gens st') = 2"
    by (auto simp: updateGens_server_update)
  from n len have fresh: "''PLATFORM_p'' \<notin> fst ` set (resources (gens st' ! 1))"
    by (simp add: platform_focused_def)
  from m[rule_format, of "[(''platformName'', JStr ''p''), (''description'', JStr ''primary'')]"]
  have "map_of (resources (gens st' ! 0)) ''PLATFORM_p''
              = Some [(''platformName'', JStr ''p''), (''platformRootURL'', JStr ''https://p''),
                      (''category'', JStr ''platform''), (''guid'', JStr ''PLATFORM_p''),
                      (''gen'', JNum 1), (''description'', JStr ''primary'')]"
    by (simp add: server_update_def platform_focused_def platform_p_def Object_assign_def)
  with u i fresh k known_located_server_update show ?thesis by blast
qed

subsection \<open>An identifier known under the other kind\<close>

text \<open>
  The identifiers are built by prefixing a name: \<open>genPlatformGUID\<close> prefixes
  \<open>PLATFORM_\<close> and \<open>genPlatformServerEdgeGUID\<close> prefixes \<open>PLATFORM_TO_SERVER_\<close>, so
  that the platform \<open>TO_SERVER_s\<close> and the edge to the server instance \<open>s\<close> have the
  same identifier. The first retrieval of the platform \<open>TO_SERVER_s\<close> gives the
  generations and the index of \<open>platform_t_loaded\<close>, in which the index is
  consistent, and the update with the server instance \<open>s\<close> is not located there.
\<close>

lemma updateGens_platform_t:
  "updateGens platform_t_update (JStr ''platform TO_SERVER_s'') initial_state
   = Inr (initial_state\<lparr>gens := gens platform_t_loaded,
                           guidToGenId := guidToGenId platform_t_loaded\<rparr>)"
  by (simp add: updateGens_def update_resource_def getLatestGenId_def createEmptyGen_def
        array_store_def initial_state_def platform_t_loaded_def platform_t_update_def
        platform_t_def)

lemma index_consistent_platform_t_loaded: "index_consistent platform_t_loaded"
  by (simp add: index_consistent_def platform_t_loaded_def)

lemma not_known_located_server_list_update:
  "\<not> known_located platform_t_loaded server_list_update"
  by (simp add: known_located_def located_def platform_t_loaded_def server_list_update_def)

text \<open>
  C1: a call of \<open>updateGens\<close> whose update holds at least one identifier that is not
  in \<open>guidToGenId\<close> is said to append exactly one generation, which holds the new
  identifiers. In the state \<open>platform_t_loaded\<close>, whose generations and index the
  first call of \<open>updateGens\<close> for the platform gives, the update \<open>server_list_update\<close> has
  one new identifier, \<open>SERVER_INSTANCE_s\<close>, and one known identifier,
  \<open>PLATFORM_TO_SERVER_s\<close>, which generation 1 holds as a resource and the update
  supplies as a relationship. The loop over the relationships reads
  \<open>ex_gen.relationships[guid]\<close>, which is \<open>undefined\<close>, and \<open>Object.assign\<close> throws a
  TypeError before a setter is called: no generation is appended, and the new
  identifier is placed nowhere.
\<close>

theorem updateGens_new_identifier_not_appended:
  "updateGens platform_t_update (JStr ''platform TO_SERVER_s'') initial_state
     = Inr (initial_state\<lparr>gens := gens platform_t_loaded,
                             guidToGenId := guidToGenId platform_t_loaded\<rparr>)
   \<and> new_ids (guidToGenId platform_t_loaded) (resources server_list_update)
     = [''SERVER_INSTANCE_s'']
   \<and> new_ids (guidToGenId platform_t_loaded) (relationships server_list_update) = []
   \<and> map fst (relationships server_list_update) = [''PLATFORM_TO_SERVER_s'']
   \<and> updateGens server_list_update (JStr ''servers of TO_SERVER_s'') platform_t_loaded
     = Inl TypeError"
  by (simp add: new_ids_def updateGens_def update_resource_def update_relationship_def
        getLatestGenId_def createEmptyGen_def array_store_def initial_state_def
        platform_t_loaded_def platform_t_update_def platform_t_def server_list_update_def)

text \<open>
  C5: a call of \<open>updateGens\<close> that supplies an identifier of \<open>guidToGenId\<close> is said
  to merge the supplied fields into the existing entity in its original generation.
  In the state \<open>platform_t_loaded\<close> the index gives generation 1 for
  \<open>PLATFORM_TO_SERVER_s\<close>, and that generation holds the entity among its resources
  and has no relationship of that name. The update \<open>server_list_update\<close> supplies the
  identifier with the fields of the edge, as a relationship; the call throws a
  TypeError, and nothing is merged into the entity.
\<close>

theorem updateGens_known_identifier_not_merged:
  "map_of (guidToGenId platform_t_loaded) ''PLATFORM_TO_SERVER_s'' = Some 1
   \<and> map_of (resources (gens platform_t_loaded ! 0)) ''PLATFORM_TO_SERVER_s''
     = Some (platform_t @ [(''gen'', JNum 1)])
   \<and> map_of (relationships (gens platform_t_loaded ! 0)) ''PLATFORM_TO_SERVER_s'' = None
   \<and> map_of (relationships server_list_update) ''PLATFORM_TO_SERVER_s'' = Some edge_s
   \<and> updateGens server_list_update (JStr ''servers of TO_SERVER_s'') platform_t_loaded
     = Inl TypeError"
  by (simp add: updateGens_def update_resource_def update_relationship_def
        getLatestGenId_def createEmptyGen_def platform_t_loaded_def server_list_update_def)

section \<open>The index invariant\<close>

lemma index_consistent_initial: "index_consistent initial_state"
  by (simp add: index_consistent_def initial_state_def)







end
